theory Spec2Isabelle
  imports Complex_Main "HOL-Library.Word"
begin

unbundle bit_operations_syntax

section \<open>The AX.25 KISS interface of Reticulum\<close>

text \<open>
  A shallow embedding of \<^verbatim>\<open>RNS/Interfaces/AX25KISSInterface.py\<close>: the KISS
  constants and escaping, the construction of an outbound data frame with its AX.25
  address header, the transmit queue with its ready flag, the byte-at-a-time reader
  loop, and the constructor with the device configuration and the reconnect loop.

  A byte is an \<open>8 word\<close>, a \<^verbatim>\<open>bytes\<close> object a list of them. Python's
  integers are \<open>int\<close>. An exception is an \<open>error\<close> value; a method that mutates
  the interface and may raise returns the pair of \<open>error option\<close> and the interface as
  the exception leaves it. The owner's thread and the reader's thread share the
  interface object; a call of a method and an iteration of the reader loop are each
  taken as one step on it.
\<close>

type_synonym byte = "8 word"

datatype error = ValueError | UnicodeEncodeError | OverflowError | IOError | SerialException

subsection \<open>class KISS, class AX25\<close>

abbreviation FEND :: byte where "FEND \<equiv> 0xC0"
abbreviation FESC :: byte where "FESC \<equiv> 0xDB"
abbreviation TFEND :: byte where "TFEND \<equiv> 0xDC"
abbreviation TFESC :: byte where "TFESC \<equiv> 0xDD"
abbreviation CMD_UNKNOWN :: byte where "CMD_UNKNOWN \<equiv> 0xFE"
abbreviation CMD_DATA :: byte where "CMD_DATA \<equiv> 0x00"
abbreviation CMD_TXDELAY :: byte where "CMD_TXDELAY \<equiv> 0x01"
abbreviation CMD_P :: byte where "CMD_P \<equiv> 0x02"
abbreviation CMD_SLOTTIME :: byte where "CMD_SLOTTIME \<equiv> 0x03"
abbreviation CMD_TXTAIL :: byte where "CMD_TXTAIL \<equiv> 0x04"
abbreviation CMD_READY :: byte where "CMD_READY \<equiv> 0x0F"
abbreviation PID_NOLAYER3 :: byte where "PID_NOLAYER3 \<equiv> 0xF0"
abbreviation CTRL_UI :: byte where "CTRL_UI \<equiv> 0x03"
abbreviation HEADER_SIZE :: nat where "HEADER_SIZE \<equiv> 16"

text \<open>
  \<^verbatim>\<open>data.replace(bytes([old]), new)\<close> for a pattern of one byte: every occurrence of
  the byte is replaced, scanning from the left.
\<close>

primrec replace1 :: "byte \<Rightarrow> byte list \<Rightarrow> byte list \<Rightarrow> byte list" where
  "replace1 old new [] = []"
| "replace1 old new (b # bs) = (if b = old then new else [b]) @ replace1 old new bs"

text \<open>\<^verbatim>\<open>KISS.escape\<close>: the escape byte first, the delimiter second.\<close>

definition KISS_escape :: "byte list \<Rightarrow> byte list" where
  "KISS_escape data =
     (let data = replace1 0xdb [0xdb, 0xdd] data;
          data = replace1 0xc0 [0xdb, 0xdc] data
      in data)"

text \<open>\<^verbatim>\<open>bytes([v])\<close> raises ValueError unless \<open>v\<close> is in \<open>range(256)\<close>.\<close>

definition py_bytes1 :: "int \<Rightarrow> error + byte list" where
  "py_bytes1 v = (if 0 \<le> v \<and> v < 256 then Inr [word_of_int v] else Inl ValueError)"

subsection \<open>The interface object\<close>

text \<open>
  The fields of \<^verbatim>\<open>AX25KISSInterface\<close> that the modelled methods read or write.
  \<open>serial\<close> is \<open>None\<close> while the attribute is \<^verbatim>\<open>None\<close> and \<open>Some b\<close> for a port
  object whose \<^verbatim>\<open>is_open\<close> is \<open>b\<close>. Three more fields record what the interface does
  to its collaborators: \<open>port_opens\<close> counts the calls of \<^verbatim>\<open>pyserial.Serial(...)\<close>,
  \<open>tx_log\<close> lists the arguments of \<^verbatim>\<open>serial.write\<close> in order, and \<open>inbound_log\<close>
  lists the payloads handed to \<^verbatim>\<open>owner.inbound\<close> in order.
\<close>

record iface =
  src_call :: "byte list"
  src_ssid :: int
  dst_call :: "byte list"
  dst_ssid :: int
  HW_MTU :: nat
  timeout :: int
  online :: bool
  packet_queue :: "byte list list"
  flow_control :: bool
  interface_ready :: bool
  flow_control_timeout :: real
  flow_control_locked :: real
  preamble :: int
  txtail :: int
  persistence :: int
  slottime :: int
  txb :: nat
  rxb :: nat
  serial :: "bool option"
  port_opens :: nat
  tx_log :: "byte list list"
  inbound_log :: "byte list list"

text \<open>
  What one call or one loop iteration gets from outside: \<open>now_ms\<close> is the value of
  \<^verbatim>\<open>int(time.time()*1000)\<close> where the reader takes it, \<open>now_fc\<close> the value of
  \<^verbatim>\<open>time.time()\<close> in the reader's flow-control check, \<open>now_lock\<close> its value in
  \<^verbatim>\<open>process_outgoing\<close>, and \<open>wr frame\<close> the count that \<^verbatim>\<open>serial.write(frame)\<close>
  returns. A write always returns a count here: a transport whose write raises is
  outside the model, as are the logger and the sleeps.
\<close>

record env =
  now_ms :: int
  now_fc :: real
  now_lock :: real
  wr :: "byte list \<Rightarrow> int"

subsection \<open>process\_outgoing\<close>

text \<open>
  One of the two loops \<^verbatim>\<open>for i in range(0,6)\<close>: a character of the callsign shifted
  left one bit, or the byte \<^verbatim>\<open>0x20\<close> past its end. The shift is on a Python integer,
  and \<^verbatim>\<open>bytes([...])\<close> raises when the result does not fit a byte.
\<close>

fun call_loop :: "byte list \<Rightarrow> nat list \<Rightarrow> byte list \<Rightarrow> error + byte list" where
  "call_loop call [] addr = Inr addr"
| "call_loop call (i # rest) addr =
     (if i < length call then
        (case py_bytes1 (push_bit 1 (uint (call ! i))) of
           Inl e \<Rightarrow> Inl e
         | Inr b \<Rightarrow> call_loop call rest (addr @ b))
      else call_loop call rest (addr @ [0x20]))"

text \<open>
  The address header of \<^verbatim>\<open>process_outgoing\<close>: \<^verbatim>\<open>addr\<close> followed by the
  control and protocol-ID bytes.
\<close>

definition ax25_header :: "iface \<Rightarrow> error + byte list" where
  "ax25_header s =
     (case py_bytes1 (0x60 OR push_bit 1 (dst_ssid s)) of
        Inl e \<Rightarrow> Inl e
      | Inr encoded_dst_ssid \<Rightarrow>
     (case py_bytes1 ((0x60 OR push_bit 1 (src_ssid s)) OR 0x01) of
        Inl e \<Rightarrow> Inl e
      | Inr encoded_src_ssid \<Rightarrow>
     (case call_loop (dst_call s) [0..<6] [] of
        Inl e \<Rightarrow> Inl e
      | Inr addr \<Rightarrow>
     (case call_loop (src_call s) [0..<6] (addr @ encoded_dst_ssid) of
        Inl e \<Rightarrow> Inl e
      | Inr addr \<Rightarrow>
          Inr ((addr @ encoded_src_ssid) @ [CTRL_UI] @ [PID_NOLAYER3])))))"

text \<open>The value of \<^verbatim>\<open>kiss_frame\<close> in \<^verbatim>\<open>process_outgoing\<close>.\<close>

definition kiss_frame :: "iface \<Rightarrow> byte list \<Rightarrow> error + byte list" where
  "kiss_frame s data =
     (case ax25_header s of
        Inl e \<Rightarrow> Inl e
      | Inr header \<Rightarrow>
          (let data = header @ data;
               data = replace1 0xdb ([0xdb] @ [0xdd]) data;
               data = replace1 0xc0 ([0xdb] @ [0xdc]) data
           in Inr ([FEND] @ [0x00] @ data @ [FEND])))"

definition queue :: "byte list \<Rightarrow> iface \<Rightarrow> iface" where
  "queue data s = s\<lparr>packet_queue := packet_queue s @ [data]\<rparr>"

definition process_outgoing :: "env \<Rightarrow> byte list \<Rightarrow> iface \<Rightarrow> error option \<times> iface" where
  "process_outgoing e data s =
     (if online s then
        if interface_ready s then
          (let s1 = (if flow_control s
                     then s\<lparr>interface_ready := False, flow_control_locked := now_lock e\<rparr>
                     else s)
           in case kiss_frame s1 data of
                Inl err \<Rightarrow> (Some err, s1)
              | Inr frame \<Rightarrow>
                  (let written = wr e frame;
                       s2 = s1\<lparr>tx_log := tx_log s1 @ [frame], txb := txb s1 + length data\<rparr>
                   in if written \<noteq> int (length frame) then
                        (Some IOError,
                         if flow_control s2 then s2\<lparr>interface_ready := True\<rparr> else s2)
                      else (None, s2)))
        else (None, queue data s)
      else (None, s))"

definition process_queue :: "env \<Rightarrow> iface \<Rightarrow> error option \<times> iface" where
  "process_queue e s =
     (if length (packet_queue s) > 0 then
        (let data = hd (packet_queue s);
             s1 = s\<lparr>packet_queue := tl (packet_queue s)\<rparr>;
             s2 = s1\<lparr>interface_ready := True\<rparr>
         in process_outgoing e data s2)
      else if length (packet_queue s) = 0 then (None, s\<lparr>interface_ready := True\<rparr>)
      else (None, s))"

definition process_incoming :: "byte list \<Rightarrow> iface \<Rightarrow> iface" where
  "process_incoming data s =
     (if length data > HEADER_SIZE then
        s\<lparr>rxb := rxb s + length data,
          inbound_log := inbound_log s @ [drop HEADER_SIZE data]\<rparr>
      else s)"

subsection \<open>readLoop\<close>

text \<open>The local variables of \<^verbatim>\<open>readLoop\<close>.\<close>

record reader =
  in_frame :: bool
  escape :: bool
  command :: byte
  data_buffer :: "byte list"
  last_read_ms :: int

text \<open>The values the locals have when the loop is entered.\<close>

definition reader_start :: "env \<Rightarrow> reader" where
  "reader_start e =
     \<lparr>in_frame = False, escape = False, command = CMD_UNKNOWN, data_buffer = [],
      last_read_ms = now_ms e\<rparr>"

text \<open>
  One iteration with input waiting: \<open>byte\<close> is \<^verbatim>\<open>ord(self.serial.read(1))\<close>. The
  branches are those of the source, in its order.
\<close>

definition read_byte :: "env \<Rightarrow> byte \<Rightarrow> reader \<times> iface \<Rightarrow> error option \<times> reader \<times> iface" where
  "read_byte e byte rs =
     (case rs of (r0, s) \<Rightarrow>
      (let r = r0\<lparr>last_read_ms := now_ms e\<rparr> in
       if in_frame r \<and> byte = FEND \<and> command r = CMD_DATA then
         (None, r\<lparr>in_frame := False\<rparr>, process_incoming (data_buffer r) s)
       else if byte = FEND then
         (None, r\<lparr>in_frame := True, command := CMD_UNKNOWN, data_buffer := []\<rparr>, s)
       else if in_frame r \<and> length (data_buffer r) < HW_MTU s + HEADER_SIZE then
         if length (data_buffer r) = 0 \<and> command r = CMD_UNKNOWN then
           (let byte = byte AND 0x0F in (None, r\<lparr>command := byte\<rparr>, s))
         else if command r = CMD_DATA then
           if byte = FESC then (None, r\<lparr>escape := True\<rparr>, s)
           else if escape r then
             (let byte = (if byte = TFEND then FEND else byte);
                  byte = (if byte = TFESC then FESC else byte)
              in (None, r\<lparr>escape := False, data_buffer := data_buffer r @ [byte]\<rparr>, s))
           else (None, r\<lparr>data_buffer := data_buffer r @ [byte]\<rparr>, s)
         else if command r = CMD_READY then
           (case process_queue e s of (err, s') \<Rightarrow> (err, r, s'))
         else (None, r, s)
       else (None, r, s)))"

text \<open>
  One iteration with nothing waiting: the idle timeout of the parser, then the
  flow-control timeout.
\<close>

definition read_idle :: "env \<Rightarrow> reader \<times> iface \<Rightarrow> error option \<times> reader \<times> iface" where
  "read_idle e rs =
     (case rs of (r0, s) \<Rightarrow>
      (let time_since_last = now_ms e - last_read_ms r0;
           r = (if length (data_buffer r0) > 0 \<and> time_since_last > timeout s
                then r0\<lparr>data_buffer := [], in_frame := False, command := CMD_UNKNOWN,
                        escape := False\<rparr>
                else r0)
       in if flow_control s then
            if \<not> interface_ready s then
              if now_fc e > flow_control_locked s + flow_control_timeout s then
                (case process_queue e s of (err, s') \<Rightarrow> (err, r, s'))
              else (None, r, s)
            else (None, r, s)
          else (None, r, s)))"

text \<open>
  The loop, run on a script: one entry for each iteration, \<open>Some byte\<close> when
  \<^verbatim>\<open>in_waiting\<close> is true and \<open>None\<close> when it is not. The loop is left when the port
  is no longer open or when an iteration raises; either way the interface is marked
  offline and the port is closed (the lines after the loop). \<open>Running\<close> is the loop
  that has consumed its script and goes on. The loop is only ever started on an
  interface that has a port object; the process exit that
  \<^verbatim>\<open>panic_on_interface_error\<close> asks for and the call of \<^verbatim>\<open>reconnect_port\<close> that
  follows the loop are not part of this function (the reconnect loop is below).
\<close>

datatype exit = Running | Stopped "error option"

fun readLoop :: "(env \<times> byte option) list \<Rightarrow> reader \<times> iface \<Rightarrow> exit \<times> reader \<times> iface" where
  "readLoop [] (r, s) = (Running, r, s)"
| "readLoop ((e, x) # rest) (r, s) =
     (if serial s = Some True then
        (case (case x of Some byte \<Rightarrow> read_byte e byte (r, s) | None \<Rightarrow> read_idle e (r, s)) of
           (None, r', s') \<Rightarrow> readLoop rest (r', s')
         | (Some err, r', s') \<Rightarrow>
             (Stopped (Some err), r', s'\<lparr>online := False, serial := Some False\<rparr>))
      else (Stopped None, r, s\<lparr>online := False, serial := Some False\<rparr>))"

subsection \<open>The constructor, configure\_device and reconnect\_port\<close>

text \<open>
  The configuration options the constructor reads, already parsed; \<open>None\<close> is an
  option that is not given. A \<^verbatim>\<open>str\<close> is the list of its code points. The options
  that are only passed on to the serial port (speed, databits, parity, stopbits) and
  the name are left out.
\<close>

type_synonym str = "nat list"

record config =
  c_port :: "string option"
  c_callsign :: "str option"
  c_ssid :: "int option"
  c_flow_control :: "bool option"
  c_preamble :: "int option"
  c_txtail :: "int option"
  c_persistence :: "int option"
  c_slottime :: "int option"

text \<open>
  \<^verbatim>\<open>str.upper()\<close> replaces every character by its full uppercase mapping, which
  can be more than one character (the sharp s, U+00DF, becomes \<^verbatim>\<open>SS\<close>), so the
  result can be longer than the string. Python takes the mapping from the Unicode
  character database; here it is the parameter \<open>uc\<close>, from a code point to the code
  points of its uppercase form.
\<close>

definition upper :: "(nat \<Rightarrow> nat list) \<Rightarrow> str \<Rightarrow> str" where
  "upper uc cs = concat (map uc cs)"

text \<open>
  \<^verbatim>\<open>str.encode("ascii")\<close> raises UnicodeEncodeError (a subclass of ValueError) unless
  every code point is below 128.
\<close>

definition encode_ascii :: "str \<Rightarrow> error + byte list" where
  "encode_ascii cs =
     (if list_all (\<lambda>c. c < 128) cs then Inr (map of_nat cs) else Inl UnicodeEncodeError)"

text \<open>What \<^verbatim>\<open>pyserial.Serial(...)\<close> does: it raises, or returns a port object.\<close>

datatype open_outcome = OpenRaises | OpenReturns bool

definition open_port :: "open_outcome \<Rightarrow> iface \<Rightarrow> error option \<times> iface" where
  "open_port oo s =
     (case oo of
        OpenRaises \<Rightarrow> (Some SerialException, s\<lparr>port_opens := port_opens s + 1\<rparr>)
      | OpenReturns b \<Rightarrow> (None, s\<lparr>serial := Some b, port_opens := port_opens s + 1\<rparr>))"

text \<open>
  \<^verbatim>\<open>int(x / 10)\<close>: the division is a float division, which raises OverflowError
  when the quotient, rounded to a float, would reach \<open>2 ^ 1024\<close>; otherwise the result
  is truncated towards zero. The value here is the truncation of the exact quotient.
  The float's truncation can differ from it only where both are far above 255, and
  the device commands clamp their value to a byte, so the byte they write is the
  code's.
\<close>

definition int_div10 :: "int \<Rightarrow> error + int" where
  "int_div10 x =
     (if 10 * (2 ^ 1024 - 2 ^ 970) \<le> \<bar>x\<bar> then Inl OverflowError
      else Inr (if 0 \<le> x then x div 10 else - ((- x) div 10)))"

definition clamp_byte :: "int \<Rightarrow> int" where
  "clamp_byte v = (let v = (if v < 0 then 0 else v) in if v > 255 then 255 else v)"

definition write_command :: "error \<Rightarrow> env \<Rightarrow> byte list \<Rightarrow> iface \<Rightarrow> error option \<times> iface" where
  "write_command err e kiss_command s =
     (let written = wr e kiss_command;
          s' = s\<lparr>tx_log := tx_log s @ [kiss_command]\<rparr>
      in if written \<noteq> int (length kiss_command) then (Some err, s') else (None, s'))"

definition setPreamble :: "env \<Rightarrow> int \<Rightarrow> iface \<Rightarrow> error option \<times> iface" where
  "setPreamble e preamble_ms s =
     (case int_div10 preamble_ms of
        Inl err \<Rightarrow> (Some err, s)
      | Inr v \<Rightarrow>
          write_command IOError e
            ([FEND] @ [CMD_TXDELAY] @ [word_of_int (clamp_byte v)] @ [FEND]) s)"

definition setTxTail :: "env \<Rightarrow> int \<Rightarrow> iface \<Rightarrow> error option \<times> iface" where
  "setTxTail e txtail_ms s =
     (case int_div10 txtail_ms of
        Inl err \<Rightarrow> (Some err, s)
      | Inr v \<Rightarrow>
          write_command IOError e
            ([FEND] @ [CMD_TXTAIL] @ [word_of_int (clamp_byte v)] @ [FEND]) s)"

definition setPersistence :: "env \<Rightarrow> int \<Rightarrow> iface \<Rightarrow> error option \<times> iface" where
  "setPersistence e p s =
     write_command IOError e
       ([FEND] @ [CMD_P] @ [word_of_int (clamp_byte p)] @ [FEND]) s"

definition setSlotTime :: "env \<Rightarrow> int \<Rightarrow> iface \<Rightarrow> error option \<times> iface" where
  "setSlotTime e slottime_ms s =
     (case int_div10 slottime_ms of
        Inl err \<Rightarrow> (Some err, s)
      | Inr v \<Rightarrow>
          write_command IOError e
            ([FEND] @ [CMD_SLOTTIME] @ [word_of_int (clamp_byte v)] @ [FEND]) s)"

definition setFlowControl :: "env \<Rightarrow> bool \<Rightarrow> iface \<Rightarrow> error option \<times> iface" where
  "setFlowControl e fc s =
     write_command IOError e ([FEND] @ [CMD_READY] @ [0x01] @ [FEND]) s"

text \<open>Sequencing of two steps, the second skipped when the first raises.\<close>

definition and_then ::
  "(iface \<Rightarrow> error option \<times> iface) \<Rightarrow> (iface \<Rightarrow> error option \<times> iface) \<Rightarrow>
   iface \<Rightarrow> error option \<times> iface" where
  "and_then f g s = (case f s of (None, s') \<Rightarrow> g s' | (Some err, s') \<Rightarrow> (Some err, s'))"

text \<open>
  \<^verbatim>\<open>configure_device\<close>. It starts the reader thread, whose locals are not part of
  the interface object: the callers below pair the result with \<open>reader_start\<close>.
\<close>

definition configure_device :: "env \<Rightarrow> iface \<Rightarrow> error option \<times> iface" where
  "configure_device e s0 =
     (let s = s0\<lparr>online := True\<rparr> in
      and_then (setPreamble e (preamble s))
     (and_then (setTxTail e (txtail s))
     (and_then (setPersistence e (persistence s))
     (and_then (setSlotTime e (slottime s))
     (and_then (setFlowControl e (flow_control s))
        (\<lambda>s. (None, s\<lparr>interface_ready := True\<rparr>)))))) s)"

text \<open>The object before \<^verbatim>\<open>__init__\<close> has assigned its fields.\<close>

definition blank :: iface where
  "blank =
     \<lparr>src_call = [], src_ssid = 0, dst_call = [], dst_ssid = 0, HW_MTU = 0, timeout = 0,
      online = False, packet_queue = [], flow_control = False, interface_ready = False,
      flow_control_timeout = 0, flow_control_locked = 0, preamble = 0, txtail = 0,
      persistence = 0, slottime = 0, txb = 0, rxb = 0, serial = None, port_opens = 0,
      tx_log = [], inbound_log = []\<rparr>"

text \<open>\<^verbatim>\<open>"APZRNS".encode("ascii")\<close>\<close>

definition APZRNS :: "byte list" where
  "APZRNS = [0x41, 0x50, 0x5A, 0x52, 0x4E, 0x53]"

text \<open>
  The values of \<^verbatim>\<open>callsign\<close> and \<^verbatim>\<open>ssid\<close> in \<^verbatim>\<open>__init__\<close>, with
  their defaults.
\<close>

definition conf_callsign :: "config \<Rightarrow> str" where
  "conf_callsign c = (case c_callsign c of Some cs \<Rightarrow> cs | None \<Rightarrow> [])"

definition conf_ssid :: "config \<Rightarrow> int" where
  "conf_ssid c = (case c_ssid c of Some n \<Rightarrow> n | None \<Rightarrow> - 1)"

text \<open>
  \<^verbatim>\<open>__init__\<close>: \<open>uc\<close> is the uppercase mapping that \<^verbatim>\<open>callsign.upper()\<close> uses
  and \<open>t0\<close> the value of \<^verbatim>\<open>time.time()\<close> stored in \<^verbatim>\<open>flow_control_locked\<close>.
  The callsign is upper-cased and encoded where \<^verbatim>\<open>src_call\<close> is assigned, after the
  check of the port and before the checks of the callsign and the SSID; the callsign
  check measures \<^verbatim>\<open>src_call\<close>, the encoded bytes.
\<close>

definition init ::
  "(nat \<Rightarrow> nat list) \<Rightarrow> config \<Rightarrow> real \<Rightarrow> open_outcome \<Rightarrow> env \<Rightarrow> error option \<times> iface" where
  "init uc c t0 oo e =
     (let flow_control = (case c_flow_control c of Some b \<Rightarrow> b | None \<Rightarrow> False);
          port = c_port c;
          callsign = conf_callsign c;
          ssid = conf_ssid c
      in if port = None then (Some ValueError, blank)
         else
           (let s = blank\<lparr>HW_MTU := 564, serial := None\<rparr>
            in case encode_ascii (upper uc callsign) of
                 Inl err \<Rightarrow> (Some err, s)
               | Inr encoded \<Rightarrow>
           (let s = s\<lparr>src_call := encoded, src_ssid := ssid,
                      dst_call := APZRNS, dst_ssid := 0, timeout := 100,
                      online := False, packet_queue := [],
                      flow_control := flow_control, interface_ready := False,
                      flow_control_timeout := 5, flow_control_locked := t0\<rparr>
            in if length (src_call s) < 3 \<or> length (src_call s) > 6 then (Some ValueError, s)
               else if src_ssid s < 0 \<or> src_ssid s > 15 then (Some ValueError, s)
               else
                 (let s = s\<lparr>preamble := (case c_preamble c of Some v \<Rightarrow> v | None \<Rightarrow> 350),
                             txtail := (case c_txtail c of Some v \<Rightarrow> v | None \<Rightarrow> 20),
                             persistence := (case c_persistence c of Some v \<Rightarrow> v | None \<Rightarrow> 64),
                             slottime := (case c_slottime c of Some v \<Rightarrow> v | None \<Rightarrow> 20)\<rparr>
                  in case open_port oo s of
                       (Some err, s') \<Rightarrow> (Some err, s')
                     | (None, s') \<Rightarrow>
                         if serial s' = Some True then configure_device e s'
                         else (Some IOError, s')))))"

text \<open>
  One round of the loop of \<^verbatim>\<open>reconnect_port\<close>, which runs while the interface is
  not online: an exception of \<^verbatim>\<open>open_port\<close> or \<^verbatim>\<open>configure_device\<close> is caught
  and logged. A successful open starts a new reader.
\<close>

definition reconnect_attempt :: "open_outcome \<Rightarrow> env \<Rightarrow> reader \<times> iface \<Rightarrow> reader \<times> iface" where
  "reconnect_attempt oo e rs =
     (case rs of (r, s) \<Rightarrow>
       (case open_port oo s of
          (Some err, s') \<Rightarrow> (r, s')
        | (None, s') \<Rightarrow>
            if serial s' = Some True
            then (reader_start e, snd (configure_device e s'))
            else (r, s')))"

subsection \<open>The states the running interface can reach\<close>

text \<open>
  The interface after a constructor that returned, and every state it gets to by a
  call of \<^verbatim>\<open>process_outgoing\<close> from its owner, by an iteration of the reader loop
  while the loop runs, by the loop's exit, and by a round of the reconnect loop while
  the interface is offline. Each of these is taken as one atomic step.
\<close>

inductive reachable :: "reader \<times> iface \<Rightarrow> bool" where
  start: "init uc c t0 oo e = (None, s) \<Longrightarrow> reachable (reader_start e, s)"
| send: "reachable (r, s) \<Longrightarrow> process_outgoing e data s = (res, s') \<Longrightarrow> reachable (r, s')"
| read: "reachable (r, s) \<Longrightarrow> online s \<Longrightarrow> readLoop [(e, x)] (r, s) = (res, r', s') \<Longrightarrow>
     reachable (r', s')"
| fail: "reachable (r, s) \<Longrightarrow> online s \<Longrightarrow>
     reachable (r, s\<lparr>online := False, serial := Some False\<rparr>)"
| reconnect: "reachable (r, s) \<Longrightarrow> \<not> online s \<Longrightarrow> reconnect_attempt oo e (r, s) = (r', s') \<Longrightarrow>
     reachable (r', s')"

subsection \<open>The specification's notions\<close>

text \<open>
  The escaping as the specification words it: every escape byte becomes the pair
  escape, transposed escape; every delimiter becomes the pair escape, transposed
  delimiter; every other byte stays.
\<close>

definition escape_spec :: "byte list \<Rightarrow> byte list" where
  "escape_spec payload =
     concat (map (\<lambda>b. if b = FESC then [FESC, TFESC]
                      else if b = FEND then [FESC, TFEND] else [b]) payload)"

text \<open>
  No unescaped occurrence of a reserved byte: no delimiter at all, and every escape
  byte is followed by a transposed byte, which it consumes.
\<close>

fun no_unescaped_reserved :: "byte list \<Rightarrow> bool" where
  "no_unescaped_reserved [] = True"
| "no_unescaped_reserved (b # bs) =
     (if b = FESC then
        (case bs of
           [] \<Rightarrow> False
         | c # cs \<Rightarrow> (c = TFEND \<or> c = TFESC) \<and> no_unescaped_reserved cs)
      else b \<noteq> FEND \<and> no_unescaped_reserved bs)"

text \<open>
  A script that feeds the reader the given bytes, one iteration each, with the
  environment \<open>e\<close> throughout.
\<close>

definition feed :: "env \<Rightarrow> byte list \<Rightarrow> (env \<times> byte option) list" where
  "feed e bs = map (\<lambda>b. (e, Some b)) bs"

text \<open>
  The six address bytes that \<open>call_loop\<close> makes of a callsign: each character
  shifted one bit, and \<open>0x20\<close> in the positions past its end.
\<close>

definition addr_field :: "byte list \<Rightarrow> byte list" where
  "addr_field call = map (\<lambda>i. if i < length call then push_bit 1 (call ! i) else 0x20) [0..<6]"

subsection \<open>A concrete interface\<close>

text \<open>
  Python's uppercase mapping on the code points below 256: the letters \<^verbatim>\<open>a\<close> to
  \<^verbatim>\<open>z\<close> and the accented small letters U+00E0 to U+00FE (not the division sign
  U+00F7) move down by 32, the micro sign becomes U+039C, the sharp s becomes
  \<^verbatim>\<open>SS\<close>, U+00FF becomes U+0178, and every other one stays. A code point from 256
  on is left as it is, which is not Python's mapping for every one of them; the
  configurations below have no such code point.
\<close>

definition latin1_upper :: "nat \<Rightarrow> nat list" where
  "latin1_upper c =
     (if 0x61 \<le> c \<and> c \<le> 0x7A then [c - 0x20]
      else if c = 0xB5 then [0x39C]
      else if c = 0xDF then [0x53, 0x53]
      else if 0xE0 \<le> c \<and> c \<le> 0xFE \<and> c \<noteq> 0xF7 then [c - 0x20]
      else if c = 0xFF then [0x178]
      else [c])"

text \<open>
  The configuration \<^verbatim>\<open>callsign = "abC"\<close>, \<^verbatim>\<open>ssid = 5\<close> on a port that opens,
  with every other option left to its default; an environment whose clock stands at 0
  and whose transport writes every frame completely; and the interface the constructor
  returns for them.
\<close>

definition example_config :: config where
  "example_config =
     \<lparr>c_port = Some ''/dev/ttyUSB0'', c_callsign = Some [0x61, 0x62, 0x43],
      c_ssid = Some 5, c_flow_control = None, c_preamble = None, c_txtail = None,
      c_persistence = None, c_slottime = None\<rparr>"

definition full_write :: env where
  "full_write = \<lparr>now_ms = 0, now_fc = 0, now_lock = 0, wr = (\<lambda>frame. int (length frame))\<rparr>"

definition example_iface :: iface where
  "example_iface = snd (init latin1_upper example_config 0 (OpenReturns True) full_write)"

text \<open>
  The same configuration with the callsign of two characters \<^verbatim>\<open>a\<close> and sharp s,
  whose uppercase form is \<^verbatim>\<open>ASS\<close>.
\<close>

definition sharp_s_config :: config where
  "sharp_s_config = example_config\<lparr>c_callsign := Some [0x61, 0xDF]\<rparr>"

text \<open>A transport that writes one byte less than it is given.\<close>

definition short_write :: env where
  "short_write = full_write\<lparr>wr := (\<lambda>frame. int (length frame) - 1)\<rparr>"

text \<open>A clock reading 101 ms after the one of \<open>full_write\<close>.\<close>

definition late :: env where
  "late = full_write\<lparr>now_ms := 101\<rparr>"

text \<open>
  The same with flow control enabled, and that interface after its owner has sent four
  payloads of one byte: the first is written and locks the interface, the other three
  are queued.
\<close>

definition fc_iface :: iface where
  "fc_iface =
     snd (init latin1_upper (example_config\<lparr>c_flow_control := Some True\<rparr>) 0
       (OpenReturns True) full_write)"

definition queued_iface :: iface where
  "queued_iface =
     snd (process_outgoing full_write [0x04]
       (snd (process_outgoing full_write [0x03]
         (snd (process_outgoing full_write [0x02]
           (snd (process_outgoing full_write [0x01] fc_iface)))))))"

subsection \<open>What every step of the running interface keeps\<close>

text \<open>
  The idle timeout and the MTU are the constructor's, the address builds a header, and
  without flow control the interface is ready and its queue is empty.
\<close>

definition iface_inv :: "iface \<Rightarrow> bool" where
  "iface_inv s \<longleftrightarrow>
     timeout s = 100 \<and> HW_MTU s = 564 \<and> (\<exists>h. ax25_header s = Inr h) \<and>
     (flow_control s \<or> (interface_ready s \<and> packet_queue s = []))"

section \<open>Properties\<close>

subsection \<open>Escaping\<close>

text \<open>
  The two replacements of \<open>KISS_escape\<close>, in their order, are the escaping of the
  specification, which treats every byte of the input once.
\<close>

lemma KISS_escape_spec: "KISS_escape data = escape_spec data"
  by (induction data) (simp_all add: KISS_escape_def escape_spec_def)

lemma escape_spec_Nil: "escape_spec [] = []"
  by (simp add: escape_spec_def)

lemma escape_spec_Cons:
  "escape_spec (b # bs) =
     (if b = FESC then [FESC, TFESC] else if b = FEND then [FESC, TFEND] else [b]) @ escape_spec bs"
  by (simp add: escape_spec_def)

lemma escape_spec_plain:
  "\<forall>b \<in> set xs. b \<noteq> FEND \<and> b \<noteq> FESC \<Longrightarrow> escape_spec xs = xs"
  by (induction xs) (simp_all add: escape_spec_def)

lemma escape_spec_no_FEND: "FEND \<notin> set (escape_spec xs)"
  by (induction xs) (simp_all add: escape_spec_def)

lemma escape_spec_unescaped: "no_unescaped_reserved (escape_spec xs)"
  by (induction xs) (simp_all add: escape_spec_def)

text \<open>The other order would escape the escape byte a delimiter has just got.\<close>

lemma delimiter_first_escapes_twice:
  "replace1 0xdb [0xdb, 0xdd] (replace1 0xc0 [0xdb, 0xdc] [0xC0]) = [0xDB, 0xDD, 0xDC]"
  by simp

subsection \<open>The address header and the frame\<close>

text \<open>
  The header depends on the two callsigns and SSIDs only. When it can be built it has
  16 bytes, and it can be built for every address the constructor accepts.
\<close>

lemma ax25_header_cong:
  "src_call s' = src_call s \<Longrightarrow> src_ssid s' = src_ssid s \<Longrightarrow> dst_call s' = dst_call s \<Longrightarrow>
   dst_ssid s' = dst_ssid s \<Longrightarrow> ax25_header s' = ax25_header s"
  by (simp add: ax25_header_def cong: sum.case_cong)

lemma call_loop_length:
  "call_loop call is addr = Inr a \<Longrightarrow> length a = length addr + length is"
  by (induction call "is" addr rule: call_loop.induct)
     (auto simp: py_bytes1_def split: if_splits sum.splits)

lemma ax25_header_length: "ax25_header s = Inr h \<Longrightarrow> length h = 16"
  by (auto simp: ax25_header_def py_bytes1_def split: sum.splits if_splits dest!: call_loop_length)

lemma call_loop_ok:
  assumes "\<forall>b \<in> set call. uint b < 128"
  shows "\<exists>a. call_loop call is addr = Inr a"
proof (induction "is" arbitrary: addr)
  case Nil
  show ?case by simp
next
  case (Cons i rest)
  show ?case
  proof (cases "i < length call")
    case True
    then have "uint (call ! i) < 128"
      using assms by simp
    moreover have "0 \<le> uint (call ! i)" by simp
    ultimately have "py_bytes1 (push_bit 1 (uint (call ! i))) =
        Inr [word_of_int (push_bit 1 (uint (call ! i)))]"
      by (simp add: py_bytes1_def push_bit_eq_mult)
    with True Cons.IH show ?thesis by simp
  next
    case False
    with Cons.IH show ?thesis by simp
  qed
qed

lemma ssid_byte_ok:
  assumes "0 \<le> n" "n \<le> 15"
  shows "\<exists>b. py_bytes1 (0x60 OR push_bit 1 n) = Inr b"
    and "\<exists>b. py_bytes1 ((0x60 OR push_bit 1 n) OR 0x01) = Inr b"
proof -
  have n: "0 \<le> push_bit 1 n" "push_bit 1 n < 2 ^ 8"
    using assms by (simp_all add: push_bit_eq_mult)
  have 1: "(0x60 :: int) OR push_bit 1 n < 2 ^ 8"
    by (rule OR_upper) (use n in simp_all)
  have 0: "0 \<le> (0x60 :: int) OR push_bit 1 n"
    using n by simp
  have 2: "((0x60 :: int) OR push_bit 1 n) OR 0x01 < 2 ^ 8"
    by (rule OR_upper) (use 0 1 in simp_all)
  show "\<exists>b. py_bytes1 (0x60 OR push_bit 1 n) = Inr b"
    using 0 1 by (simp add: py_bytes1_def)
  show "\<exists>b. py_bytes1 ((0x60 OR push_bit 1 n) OR 0x01) = Inr b"
    using 0 2 by (simp add: py_bytes1_def)
qed

lemma encode_ascii_range:
  assumes "encode_ascii cs = Inr encoded"
  shows "\<forall>b \<in> set encoded. uint b < 128"
proof -
  have "uint (of_nat c :: byte) < 128" if "c < 128" for c :: nat
  proof -
    from that have "unat (of_nat c :: byte) = c"
      by (simp add: unat_of_nat)
    with that show ?thesis
      by (simp add: uint_nat)
  qed
  with assms show ?thesis
    by (auto simp: encode_ascii_def list_all_iff split: if_splits)
qed

lemma encode_ascii_length: "encode_ascii cs = Inr encoded \<Longrightarrow> length encoded = length cs"
  by (auto simp: encode_ascii_def split: if_splits)

lemma APZRNS_range: "\<forall>b \<in> set APZRNS. uint b < 128"
  by (simp add: APZRNS_def)

lemma ax25_header_ok:
  assumes "0 \<le> src_ssid s" "src_ssid s \<le> 15" "0 \<le> dst_ssid s" "dst_ssid s \<le> 15"
    and "\<forall>b \<in> set (src_call s). uint b < 128" "\<forall>b \<in> set (dst_call s). uint b < 128"
  shows "\<exists>h. ax25_header s = Inr h"
proof -
  from ssid_byte_ok(1) [OF assms(3,4)] obtain d where
    d: "py_bytes1 (0x60 OR push_bit 1 (dst_ssid s)) = Inr d" by blast
  from ssid_byte_ok(2) [OF assms(1,2)] obtain c where
    c: "py_bytes1 ((0x60 OR push_bit 1 (src_ssid s)) OR 0x01) = Inr c" by blast
  from call_loop_ok [OF assms(6)] obtain a1 where
    a1: "call_loop (dst_call s) [0..<6] [] = Inr a1" by blast
  from call_loop_ok [OF assms(5)] obtain a2 where
    a2: "call_loop (src_call s) [0..<6] (a1 @ d) = Inr a2" by blast
  show ?thesis
    unfolding ax25_header_def by (simp only: d c a1 a2 sum.case) blast
qed

lemma call_loop_value:
  assumes "\<forall>b \<in> set call. uint b < 128"
  shows "call_loop call is addr =
     Inr (addr @ map (\<lambda>i. if i < length call then push_bit 1 (call ! i) else 0x20) is)"
proof (induction "is" arbitrary: addr)
  case Nil
  show ?case by simp
next
  case (Cons i rest)
  show ?case
  proof (cases "i < length call")
    case True
    then have "uint (call ! i) < 128"
      using assms by simp
    then have "py_bytes1 (push_bit 1 (uint (call ! i))) = Inr [push_bit 1 (call ! i)]"
      by (simp add: py_bytes1_def push_bit_eq_mult)
    with True Cons.IH show ?thesis by simp
  next
    case False
    with Cons.IH show ?thesis by simp
  qed
qed

lemma ax25_header_value:
  assumes "0 \<le> src_ssid s" "src_ssid s \<le> 15" "0 \<le> dst_ssid s" "dst_ssid s \<le> 15"
    and "\<forall>b \<in> set (src_call s). uint b < 128" "\<forall>b \<in> set (dst_call s). uint b < 128"
  shows "ax25_header s =
     Inr (addr_field (dst_call s) @ [word_of_int (0x60 OR push_bit 1 (dst_ssid s))] @
          addr_field (src_call s) @ [word_of_int ((0x60 OR push_bit 1 (src_ssid s)) OR 0x01)] @
          [CTRL_UI, PID_NOLAYER3])"
proof -
  from ssid_byte_ok(1) [OF assms(3,4)]
  have d: "py_bytes1 (0x60 OR push_bit 1 (dst_ssid s)) =
      Inr [word_of_int (0x60 OR push_bit 1 (dst_ssid s))]"
    by (auto simp: py_bytes1_def split: if_splits)
  from ssid_byte_ok(2) [OF assms(1,2)]
  have c: "py_bytes1 ((0x60 OR push_bit 1 (src_ssid s)) OR 0x01) =
      Inr [word_of_int ((0x60 OR push_bit 1 (src_ssid s)) OR 0x01)]"
    by (auto simp: py_bytes1_def split: if_splits)
  show ?thesis
    unfolding ax25_header_def
    by (simp only: d c call_loop_value [OF assms(5)] call_loop_value [OF assms(6)] sum.case
          addr_field_def append_Nil append_assoc append_Cons)
qed

lemma kiss_frame_eq:
  "kiss_frame s data = (case ax25_header s of Inl e \<Rightarrow> Inl e
     | Inr header \<Rightarrow> Inr (FEND # 0x00 # escape_spec (header @ data) @ [FEND]))"
  using KISS_escape_spec [of "h @ data" for h]
  by (simp add: kiss_frame_def KISS_escape_def split: sum.splits)

lemma kiss_frame_Inr: "ax25_header s = Inr h \<Longrightarrow> \<exists>f. kiss_frame s data = Inr f"
  by (simp add: kiss_frame_eq)

lemma kiss_frame_cong:
  assumes "src_call s' = src_call s" "src_ssid s' = src_ssid s" "dst_call s' = dst_call s"
    "dst_ssid s' = dst_ssid s"
  shows "kiss_frame s' data = kiss_frame s data"
proof -
  from assms have "ax25_header s' = ax25_header s"
    by (rule ax25_header_cong)
  then show ?thesis
    by (simp add: kiss_frame_def)
qed

lemma kiss_frame_flags:
  "kiss_frame (s\<lparr>interface_ready := a\<rparr>) data = kiss_frame s data"
  "kiss_frame (s\<lparr>interface_ready := a, flow_control_locked := t\<rparr>) data = kiss_frame s data"
  "kiss_frame (s\<lparr>packet_queue := q\<rparr>) data = kiss_frame s data"
  by (rule kiss_frame_cong; simp)+

subsection \<open>The concrete interfaces, evaluated\<close>

lemmas config_defs = setPreamble_def setTxTail_def setPersistence_def setSlotTime_def
  setFlowControl_def write_command_def and_then_def configure_device_def

lemma float_range:
  "\<not> 10 * (2 ^ 1024 - 2 ^ 970) \<le> \<bar>350 :: int\<bar>" "\<not> 10 * (2 ^ 1024 - 2 ^ 970) \<le> \<bar>20 :: int\<bar>"
  by simp_all

lemma example_init:
  "init latin1_upper example_config 0 (OpenReturns True) full_write = (None, 
     \<lparr>src_call = [0x41, 0x42, 0x43], src_ssid = 5, dst_call = APZRNS, dst_ssid = 0,
      HW_MTU = 564, timeout = 100, online = True, packet_queue = [], flow_control = False,
      interface_ready = True, flow_control_timeout = 5, flow_control_locked = 0,
      preamble = 350, txtail = 20, persistence = 64, slottime = 20, txb = 0, rxb = 0,
      serial = Some True, port_opens = 1,
      tx_log = [[0xC0, 0x01, 35, 0xC0], [0xC0, 0x04, 2, 0xC0], [0xC0, 0x02, 64, 0xC0],
                [0xC0, 0x03, 2, 0xC0], [0xC0, 0x0F, 1, 0xC0]],
      inbound_log = []\<rparr>)"
  by (simp add: init_def example_config_def full_write_def blank_def open_port_def config_defs
        upper_def latin1_upper_def encode_ascii_def int_div10_def float_range clamp_byte_def
        conf_ssid_def conf_callsign_def del: abs_numeral)

lemma example_iface_eq:
  "example_iface =
     \<lparr>src_call = [0x41, 0x42, 0x43], src_ssid = 5, dst_call = APZRNS, dst_ssid = 0,
      HW_MTU = 564, timeout = 100, online = True, packet_queue = [], flow_control = False,
      interface_ready = True, flow_control_timeout = 5, flow_control_locked = 0,
      preamble = 350, txtail = 20, persistence = 64, slottime = 20, txb = 0, rxb = 0,
      serial = Some True, port_opens = 1,
      tx_log = [[0xC0, 0x01, 35, 0xC0], [0xC0, 0x04, 2, 0xC0], [0xC0, 0x02, 64, 0xC0],
                [0xC0, 0x03, 2, 0xC0], [0xC0, 0x0F, 1, 0xC0]],
      inbound_log = []\<rparr>"
  by (simp add: example_iface_def example_init)

lemma example_iface_fields:
  "serial example_iface = Some True" "HW_MTU example_iface = 564" "rxb example_iface = 0"
  "inbound_log example_iface = []" "online example_iface" "\<not> flow_control example_iface"
  "interface_ready example_iface" "packet_queue example_iface = []" "txb example_iface = 0"
  "timeout example_iface = 100"
  by (simp_all add: example_iface_eq)

lemma range6: "[0..<6] = [0, 1, 2, 3, 4, 5::nat]"
  by code_simp

lemma example_header: "ax25_header example_iface =
   Inr [0x82, 0xA0, 0xB4, 0xA4, 0x9C, 0xA6, 0x60, 0x82, 0x84, 0x86, 0x20, 0x20, 0x20, 0x6B, 0x03, 0xF0]"
  by (simp add: example_iface_eq ax25_header_def APZRNS_def py_bytes1_def range6)

lemma example_frame_hi:
  "kiss_frame example_iface [0x68, 0x69] =
     Inr [0xC0, 0x00, 0x82, 0xA0, 0xB4, 0xA4, 0x9C, 0xA6, 0x60, 0x82, 0x84, 0x86, 0x20, 0x20,
          0x20, 0x6B, 0x03, 0xF0, 0x68, 0x69, 0xC0]"
  by (simp add: kiss_frame_def example_header)

lemma example_frame_plain:
  assumes "\<forall>b \<in> set P. b \<noteq> FEND \<and> b \<noteq> FESC"
  shows "kiss_frame example_iface P =
     Inr ([0xC0, 0x00, 0x82, 0xA0, 0xB4, 0xA4, 0x9C, 0xA6, 0x60, 0x82, 0x84, 0x86, 0x20, 0x20,
           0x20, 0x6B, 0x03, 0xF0] @ P @ [0xC0])"
proof -
  have "escape_spec ([0x82, 0xA0, 0xB4, 0xA4, 0x9C, 0xA6, 0x60, 0x82, 0x84, 0x86, 0x20, 0x20,
           0x20, 0x6B, 0x03, 0xF0] @ P) = [0x82, 0xA0, 0xB4, 0xA4, 0x9C, 0xA6, 0x60, 0x82, 0x84,
           0x86, 0x20, 0x20, 0x20, 0x6B, 0x03, 0xF0] @ P"
    by (rule escape_spec_plain) (use assms in simp)
  then show ?thesis
    by (simp add: kiss_frame_eq example_header)
qed

lemma example_frame_reserved:
  "kiss_frame example_iface [0xC0, 0xDB, 0x01] =
     Inr [0xC0, 0x00, 0x82, 0xA0, 0xB4, 0xA4, 0x9C, 0xA6, 0x60, 0x82, 0x84, 0x86, 0x20, 0x20,
          0x20, 0x6B, 0x03, 0xF0, 0xDB, 0xDC, 0xDB, 0xDD, 0x01, 0xC0]"
  by (simp add: kiss_frame_def example_header)

lemma fc_init:
  "init latin1_upper (example_config\<lparr>c_flow_control := Some True\<rparr>) 0 (OpenReturns True)
     full_write = (None, example_iface\<lparr>flow_control := True\<rparr>)"
  by (simp add: init_def example_config_def full_write_def blank_def open_port_def config_defs
        upper_def latin1_upper_def encode_ascii_def int_div10_def float_range clamp_byte_def
        conf_ssid_def conf_callsign_def example_iface_eq del: abs_numeral)

lemma fc_iface_eq: "fc_iface = example_iface\<lparr>flow_control := True\<rparr>"
  by (simp add: fc_iface_def fc_init)

lemma fc_frame:
  assumes "\<forall>b \<in> set P. b \<noteq> FEND \<and> b \<noteq> FESC"
  shows "kiss_frame (example_iface\<lparr>flow_control := True, interface_ready := a,
            flow_control_locked := t\<rparr>) P =
     Inr ([0xC0, 0x00, 0x82, 0xA0, 0xB4, 0xA4, 0x9C, 0xA6, 0x60, 0x82, 0x84, 0x86, 0x20, 0x20,
           0x20, 0x6B, 0x03, 0xF0] @ P @ [0xC0])"
proof -
  have "kiss_frame (example_iface\<lparr>flow_control := True, interface_ready := a,
            flow_control_locked := t\<rparr>) P = kiss_frame example_iface P"
    by (rule kiss_frame_cong) simp_all
  with example_frame_plain [OF assms] show ?thesis by simp
qed

lemma queued_iface_eq:
  "queued_iface =
     example_iface\<lparr>flow_control := True, interface_ready := False,
       tx_log := tx_log example_iface @
         [[0xC0, 0x00, 0x82, 0xA0, 0xB4, 0xA4, 0x9C, 0xA6, 0x60, 0x82, 0x84, 0x86, 0x20, 0x20,
           0x20, 0x6B, 0x03, 0xF0, 0x01, 0xC0]],
       txb := 1,
       packet_queue := [[0x02], [0x03], [0x04]]\<rparr>"
proof -
  let ?s1 = "example_iface\<lparr>flow_control := True, interface_ready := False,
       tx_log := tx_log example_iface @
         [[0xC0, 0x00, 0x82, 0xA0, 0xB4, 0xA4, 0x9C, 0xA6, 0x60, 0x82, 0x84, 0x86, 0x20, 0x20,
           0x20, 0x6B, 0x03, 0xF0, 0x01, 0xC0]],
       txb := 1\<rparr>"
  have 1: "snd (process_outgoing full_write [0x01] fc_iface) = ?s1"
    using fc_frame [where P = "[0x01]" and a = False and t = "now_lock full_write"]
    by (simp add: fc_iface_eq process_outgoing_def Let_def example_iface_fields)
       (simp add: full_write_def example_iface_eq)
  have q: "snd (process_outgoing full_write d (?s1\<lparr>packet_queue := q\<rparr>)) =
      ?s1\<lparr>packet_queue := q @ [d]\<rparr>" for d q
    by (simp add: process_outgoing_def queue_def example_iface_fields)
  have 0: "?s1 = ?s1\<lparr>packet_queue := []\<rparr>"
    by (simp add: example_iface_eq)
  have "queued_iface = ?s1\<lparr>packet_queue := [[0x02], [0x03], [0x04]]\<rparr>"
    unfolding queued_iface_def 1 by (subst 0) (simp only: q append.simps)
  then show ?thesis by simp
qed

lemma queued_iface_fields:
  "packet_queue queued_iface = [[0x02], [0x03], [0x04]]" "online queued_iface"
  "serial queued_iface = Some True" "HW_MTU queued_iface = 564"
  "tx_log queued_iface = tx_log example_iface @
         [[0xC0, 0x00, 0x82, 0xA0, 0xB4, 0xA4, 0x9C, 0xA6, 0x60, 0x82, 0x84, 0x86, 0x20, 0x20,
           0x20, 0x6B, 0x03, 0xF0, 0x01, 0xC0]]"
  by (simp_all add: queued_iface_eq example_iface_fields)

lemma queued_frame:
  assumes "\<forall>b \<in> set P. b \<noteq> FEND \<and> b \<noteq> FESC"
  shows "kiss_frame queued_iface P =
     Inr ([0xC0, 0x00, 0x82, 0xA0, 0xB4, 0xA4, 0x9C, 0xA6, 0x60, 0x82, 0x84, 0x86, 0x20, 0x20,
           0x20, 0x6B, 0x03, 0xF0] @ P @ [0xC0])"
proof -
  have "kiss_frame queued_iface P = kiss_frame example_iface P"
    by (rule kiss_frame_cong) (simp_all add: queued_iface_eq)
  with example_frame_plain [OF assms] show ?thesis by simp
qed

subsection \<open>Claims about the built frame\<close>

text \<open>
  Claim C2. \<open>KISS_escape\<close> replaces the escape byte before the delimiter, so it is
  the escaping of the specification: every reserved byte of the input gets its own
  two-byte sequence and no inserted escape byte is escaped again. A data frame built by
  \<open>kiss_frame\<close> is a delimiter, the command byte 0, the escaped header and payload,
  and a delimiter: its first and its last byte are delimiters, it has no third
  delimiter, and between the two no reserved byte stands unescaped. This holds for
  every payload, with or without reserved bytes.
\<close>

theorem frame_delimited_and_escaped:
  assumes "kiss_frame s data = Inr frame"
  shows "KISS_escape data = escape_spec data \<and>
         (\<exists>header. ax25_header s = Inr header \<and>
            frame = [FEND, 0x00] @ KISS_escape (header @ data) @ [FEND]) \<and>
         hd frame = FEND \<and> last frame = FEND \<and> count_list frame FEND = 2 \<and>
         FEND \<notin> set (butlast (tl frame)) \<and> no_unescaped_reserved (butlast (tl frame))"
proof -
  from assms obtain header where h: "ax25_header s = Inr header"
    and f: "frame = FEND # 0x00 # escape_spec (header @ data) @ [FEND]"
    by (auto simp: kiss_frame_eq split: sum.splits)
  have mid: "butlast (tl frame) = 0x00 # escape_spec (header @ data)"
    by (simp add: f butlast_append)
  have "count_list frame FEND = 2"
    by (simp add: f escape_spec_no_FEND)
  moreover have "hd frame = FEND \<and> last frame = FEND"
    by (simp add: f)
  moreover have "FEND \<notin> set (butlast (tl frame)) \<and> no_unescaped_reserved (butlast (tl frame))"
    by (simp add: mid escape_spec_no_FEND escape_spec_unescaped)
  ultimately show ?thesis
    using h f by (simp add: KISS_escape_spec)
qed

theorem frame_delimited_and_escaped_witness:
  "kiss_frame example_iface [0xC0, 0xDB, 0x01] =
     Inr [0xC0, 0x00, 0x82, 0xA0, 0xB4, 0xA4, 0x9C, 0xA6, 0x60, 0x82, 0x84, 0x86, 0x20, 0x20,
          0x20, 0x6B, 0x03, 0xF0, 0xDB, 0xDC, 0xDB, 0xDD, 0x01, 0xC0] \<and>
   KISS_escape [0xC0, 0xDB, 0x01] = [0xDB, 0xDC, 0xDB, 0xDD, 0x01] \<and>
   count_list [0xC0, 0x00, 0x82, 0xA0, 0xB4, 0xA4, 0x9C, 0xA6, 0x60, 0x82, 0x84, 0x86, 0x20,
          0x20, 0x20, 0x6B, 0x03, 0xF0, 0xDB, 0xDC, 0xDB, 0xDD, 0x01, 0xC0] FEND = 2 \<and>
   no_unescaped_reserved [0x00, 0x82, 0xA0, 0xB4, 0xA4, 0x9C, 0xA6, 0x60, 0x82, 0x84, 0x86,
          0x20, 0x20, 0x20, 0x6B, 0x03, 0xF0, 0xDB, 0xDC, 0xDB, 0xDD, 0x01]"
  using frame_delimited_and_escaped [OF example_frame_reserved]
  by (simp add: example_frame_reserved escape_spec_def)

text \<open>
  Claim C3, at the configuration \<^verbatim>\<open>callsign = "abC"\<close>, \<^verbatim>\<open>ssid = 5\<close>, which the
  constructor accepts. The header has 16 bytes: the destination \<^verbatim>\<open>APZRNS\<close> shifted,
  its SSID byte \<open>0x60\<close>, the source \<^verbatim>\<open>ABC\<close> shifted, three pad bytes, the source
  SSID byte \<open>0x6B = 0x60 | (5 << 1) | 1\<close>, control \<open>0x03\<close> and protocol ID
  \<open>0xF0\<close>. The pad bytes are \<open>0x20\<close>, the space character as it is, where the
  claim has the space shifted one bit, \<open>0x40\<close>.
\<close>

theorem header_pads_with_unshifted_space:
  "fst (init latin1_upper example_config 0 (OpenReturns True) full_write) = None \<and>
   src_call example_iface = [0x41, 0x42, 0x43] \<and> src_ssid example_iface = 5 \<and>
   ax25_header example_iface =
     Inr [0x82, 0xA0, 0xB4, 0xA4, 0x9C, 0xA6, 0x60,
          0x82, 0x84, 0x86, 0x20, 0x20, 0x20, 0x6B, 0x03, 0xF0] \<and>
   push_bit 1 (0x20 :: byte) = 0x40"
  by (simp add: example_init example_header) (simp add: example_iface_eq)

subsection \<open>The constructor\<close>

lemma upper_length:
  assumes "\<forall>c. uc c \<noteq> []"
  shows "length cs \<le> length (upper uc cs)"
proof (induction cs)
  case Nil
  show ?case by (simp add: upper_def)
next
  case (Cons c cs)
  from assms have "1 \<le> length (uc c)"
    by (cases "uc c") simp_all
  with Cons show ?case by (simp add: upper_def)
qed

lemma latin1_upper_nonempty: "\<forall>c. latin1_upper c \<noteq> []"
  by (simp add: latin1_upper_def)

text \<open>
  Claim C6, as amended. A configuration whose SSID (\<open>-1\<close> when the option is not
  given) is outside 0 to 15, or whose callsign (empty when not given) has more than 6
  characters, or whose callsign has fewer than 3 or more than 6 characters once it is
  upper-cased, makes the constructor raise a ValueError (the check's own, or the
  UnicodeEncodeError of the encoding, which is one) whatever the port and the
  transport would do: no port object has been made or asked for, nothing has been
  written, and the interface is not online. That a callsign of more than 6 characters
  stays that long uses that no character has an empty uppercase form.
\<close>

theorem invalid_config_raises_before_open:
  assumes "conf_ssid c < 0 \<or> conf_ssid c > 15 \<or>
           ((\<forall>c. uc c \<noteq> []) \<and> length (conf_callsign c) > 6) \<or>
           length (upper uc (conf_callsign c)) < 3 \<or> length (upper uc (conf_callsign c)) > 6"
  shows "(fst (init uc c t0 oo e) = Some ValueError \<or>
          fst (init uc c t0 oo e) = Some UnicodeEncodeError) \<and>
         serial (snd (init uc c t0 oo e)) = None \<and>
         port_opens (snd (init uc c t0 oo e)) = 0 \<and>
         tx_log (snd (init uc c t0 oo e)) = [] \<and>
         \<not> online (snd (init uc c t0 oo e))"
proof -
  from assms have bad: "conf_ssid c < 0 \<or> conf_ssid c > 15 \<or>
      length (upper uc (conf_callsign c)) < 3 \<or> length (upper uc (conf_callsign c)) > 6"
    using upper_length [of uc "conf_callsign c"] by auto
  show ?thesis
  proof (cases "encode_ascii (upper uc (conf_callsign c))")
    case (Inl err)
    then have "err = UnicodeEncodeError"
      by (simp add: encode_ascii_def split: if_splits)
    with Inl show ?thesis
      by (simp add: init_def Let_def blank_def)
  next
    case (Inr encoded)
    then have "length encoded = length (upper uc (conf_callsign c))"
      by (rule encode_ascii_length)
    with bad Inr show ?thesis
      by (auto simp: init_def Let_def blank_def)
  qed
qed

theorem invalid_config_raises_before_open_witness:
  "conf_ssid (example_config\<lparr>c_ssid := Some 16\<rparr>) = 16 \<and>
   conf_ssid (example_config\<lparr>c_ssid := None\<rparr>) = - 1 \<and>
   length (conf_callsign (example_config\<lparr>c_callsign := Some [0x61, 0x62, 0x63, 0x64, 0x65,
     0x66, 0x67]\<rparr>)) = 7 \<and>
   fst (init latin1_upper (example_config\<lparr>c_ssid := Some 16\<rparr>) 0 (OpenReturns True)
     full_write) = Some ValueError \<and>
   port_opens (snd (init latin1_upper (example_config\<lparr>c_ssid := Some 16\<rparr>) 0
     (OpenReturns True) full_write)) = 0 \<and>
   fst (init latin1_upper (example_config\<lparr>c_ssid := None\<rparr>) 0 (OpenReturns True)
     full_write) = Some ValueError \<and>
   port_opens (snd (init latin1_upper (example_config\<lparr>c_ssid := None\<rparr>) 0
     (OpenReturns True) full_write)) = 0 \<and>
   fst (init latin1_upper (example_config\<lparr>c_callsign := Some [0x61, 0x62, 0x63, 0x64, 0x65,
     0x66, 0x67]\<rparr>) 0 (OpenReturns True) full_write) = Some ValueError \<and>
   port_opens (snd (init latin1_upper (example_config\<lparr>c_callsign := Some [0x61, 0x62, 0x63,
     0x64, 0x65, 0x66, 0x67]\<rparr>) 0 (OpenReturns True) full_write)) = 0"
proof -
  let ?long = "example_config\<lparr>c_callsign := Some [0x61, 0x62, 0x63, 0x64, 0x65, 0x66, 0x67]\<rparr>"
  have a: "conf_ssid (example_config\<lparr>c_ssid := Some 16\<rparr>) = 16"
    and b: "conf_ssid (example_config\<lparr>c_ssid := None\<rparr>) = - 1"
    and l: "length (conf_callsign ?long) = 7"
    by (simp_all add: conf_ssid_def conf_callsign_def)
  have v: "fst (init latin1_upper (example_config\<lparr>c_ssid := Some 16\<rparr>) 0 (OpenReturns True)
        full_write) = Some ValueError"
    "fst (init latin1_upper (example_config\<lparr>c_ssid := None\<rparr>) 0 (OpenReturns True)
        full_write) = Some ValueError"
    "fst (init latin1_upper ?long 0 (OpenReturns True) full_write) = Some ValueError"
    by (simp_all add: init_def example_config_def conf_ssid_def conf_callsign_def upper_def
          latin1_upper_def encode_ascii_def)
  from l latin1_upper_nonempty
    invalid_config_raises_before_open [of "example_config\<lparr>c_ssid := Some 16\<rparr>"
      latin1_upper 0 "OpenReturns True" full_write]
    invalid_config_raises_before_open [of "example_config\<lparr>c_ssid := None\<rparr>"
      latin1_upper 0 "OpenReturns True" full_write]
    invalid_config_raises_before_open [of ?long latin1_upper 0 "OpenReturns True" full_write]
  have "port_opens (snd (init latin1_upper (example_config\<lparr>c_ssid := Some 16\<rparr>) 0
           (OpenReturns True) full_write)) = 0"
    and "port_opens (snd (init latin1_upper (example_config\<lparr>c_ssid := None\<rparr>) 0
           (OpenReturns True) full_write)) = 0"
    and "port_opens (snd (init latin1_upper ?long 0 (OpenReturns True) full_write)) = 0"
    by (simp_all add: a b)
  with a b l v show ?thesis
    by simp
qed

text \<open>
  Claim C6 as stated fails for a callsign that is shorter than 3 characters and whose
  uppercase form is not: the callsign of the two characters \<^verbatim>\<open>a\<close> and sharp s is
  upper-cased to \<^verbatim>\<open>ASS\<close>, whose three bytes pass the check, and with a valid SSID
  the constructor opens the port and returns.
\<close>

theorem short_callsign_lengthened_by_upper:
  "conf_callsign sharp_s_config = [0x61, 0xDF] \<and>
   length (conf_callsign sharp_s_config) = 2 \<and>
   upper latin1_upper (conf_callsign sharp_s_config) = [0x41, 0x53, 0x53] \<and>
   init latin1_upper sharp_s_config 0 (OpenReturns True) full_write =
     (None, example_iface\<lparr>src_call := [0x41, 0x53, 0x53]\<rparr>) \<and>
   port_opens (example_iface\<lparr>src_call := [0x41, 0x53, 0x53]\<rparr>) = 1 \<and>
   serial (example_iface\<lparr>src_call := [0x41, 0x53, 0x53]\<rparr>) = Some True"
  by (simp add: sharp_s_config_def init_def example_config_def full_write_def blank_def
        open_port_def config_defs upper_def latin1_upper_def encode_ascii_def int_div10_def
        float_range clamp_byte_def conf_ssid_def conf_callsign_def example_iface_eq
        del: abs_numeral)

subsection \<open>Sending\<close>

text \<open>
  Claim C9. When the interface is online and ready and the transport reports fewer
  bytes written than the frame has, \<open>process_outgoing\<close> raises IOError for this
  call; the frame was handed to the transport, the transmit queue is as it was, and the
  ready flag is set.
\<close>

theorem partial_write_raises:
  assumes "online s" and "interface_ready s"
    and "kiss_frame s data = Inr frame"
    and "wr e frame < int (length frame)"
  shows "fst (process_outgoing e data s) = Some IOError \<and>
         packet_queue (snd (process_outgoing e data s)) = packet_queue s \<and>
         tx_log (snd (process_outgoing e data s)) = tx_log s @ [frame] \<and>
         interface_ready (snd (process_outgoing e data s))"
  using assms by (simp add: process_outgoing_def Let_def kiss_frame_flags)

theorem partial_write_raises_witness:
  "online (example_iface\<lparr>packet_queue := [[0x01]]\<rparr>) \<and>
   interface_ready (example_iface\<lparr>packet_queue := [[0x01]]\<rparr>) \<and>
   wr short_write [0xC0, 0x00, 0x82, 0xA0, 0xB4, 0xA4, 0x9C, 0xA6, 0x60, 0x82, 0x84, 0x86, 0x20,
        0x20, 0x20, 0x6B, 0x03, 0xF0, 0x68, 0x69, 0xC0] = 20 \<and>
   fst (process_outgoing short_write [0x68, 0x69] (example_iface\<lparr>packet_queue := [[0x01]]\<rparr>)) =
     Some IOError \<and>
   packet_queue (snd (process_outgoing short_write [0x68, 0x69]
      (example_iface\<lparr>packet_queue := [[0x01]]\<rparr>))) = [[0x01]]"
proof -
  let ?s = "example_iface\<lparr>packet_queue := [[0x01]]\<rparr>"
  let ?f = "[0xC0, 0x00, 0x82, 0xA0, 0xB4, 0xA4, 0x9C, 0xA6, 0x60, 0x82, 0x84, 0x86, 0x20,
        0x20, 0x20, 0x6B, 0x03, 0xF0, 0x68, 0x69, 0xC0] :: byte list"
  have s: "online ?s" "interface_ready ?s"
    by (simp_all add: example_iface_fields)
  have f: "kiss_frame ?s [0x68, 0x69] = Inr ?f"
    by (simp add: kiss_frame_flags example_frame_hi)
  have w: "wr short_write ?f = 20" "wr short_write ?f < int (length ?f)"
    by (simp_all add: short_write_def full_write_def)
  from partial_write_raises [OF s f w(2)] s w(1) show ?thesis
    by simp
qed

subsection \<open>The reader at the frame boundaries\<close>

lemma read_byte_frame_start:
  assumes "\<not> (in_frame r \<and> command r = CMD_DATA)"
  shows "read_byte e FEND (r, s) =
     (None, r\<lparr>last_read_ms := now_ms e, in_frame := True, command := CMD_UNKNOWN,
              data_buffer := []\<rparr>, s)"
  using assms by (auto simp: read_byte_def Let_def)

lemma read_byte_command:
  assumes "in_frame r" "command r = CMD_UNKNOWN" "data_buffer r = []" "b \<noteq> FEND"
  shows "read_byte e b (r, s) = (None, r\<lparr>last_read_ms := now_ms e, command := b AND 0x0F\<rparr>, s)"
  using assms by (simp add: read_byte_def Let_def)

lemma read_byte_frame_end:
  assumes "in_frame r" "command r = CMD_DATA"
  shows "read_byte e FEND (r, s) =
     (None, r\<lparr>last_read_ms := now_ms e, in_frame := False\<rparr>, process_incoming (data_buffer r) s)"
  using assms by (simp add: read_byte_def Let_def)

text \<open>
  Claim C7. A delimiter that reaches the reader in a frame whose command is data
  completes the frame: the reader leaves the frame (its other locals stay as they
  are), and the buffer, without its first 16 bytes, is handed to the owner if and only
  if it is longer than 16 bytes; otherwise the interface is unchanged.
\<close>

theorem data_frame_complete:
  assumes "in_frame r" and "command r = CMD_DATA"
  shows "read_byte e FEND (r, s) =
     (None, r\<lparr>last_read_ms := now_ms e, in_frame := False\<rparr>,
      if length (data_buffer r) > 16
      then s\<lparr>rxb := rxb s + length (data_buffer r),
             inbound_log := inbound_log s @ [drop 16 (data_buffer r)]\<rparr>
      else s)"
  using assms by (simp add: read_byte_def Let_def process_incoming_def)

theorem data_frame_complete_witness:
  "read_byte full_write FEND
     (\<lparr>in_frame = True, escape = False, command = CMD_DATA,
       data_buffer = replicate 16 0x01 @ [0x68, 0x69], last_read_ms = 0\<rparr>, example_iface) =
     (None,
      \<lparr>in_frame = False, escape = False, command = CMD_DATA,
       data_buffer = replicate 16 0x01 @ [0x68, 0x69], last_read_ms = 0\<rparr>,
      example_iface\<lparr>rxb := 18, inbound_log := [[0x68, 0x69]]\<rparr>) \<and>
   read_byte full_write FEND
     (\<lparr>in_frame = True, escape = False, command = CMD_DATA,
       data_buffer = replicate 16 0x01, last_read_ms = 0\<rparr>, example_iface) =
     (None,
      \<lparr>in_frame = False, escape = False, command = CMD_DATA,
       data_buffer = replicate 16 0x01, last_read_ms = 0\<rparr>,
      example_iface)"
  using data_frame_complete [of "\<lparr>in_frame = True, escape = False, command = CMD_DATA,
       data_buffer = replicate 16 0x01 @ [0x68, 0x69], last_read_ms = 0\<rparr>" full_write example_iface]
    data_frame_complete [of "\<lparr>in_frame = True, escape = False, command = CMD_DATA,
       data_buffer = replicate 16 0x01, last_read_ms = 0\<rparr>" full_write example_iface]
  by (simp add: full_write_def example_iface_fields)

text \<open>
  Claim C10, at the byte stream \<open>C0 00 DB C0 C0 00 DC\<close> read from the start of the
  loop. The escape byte sets the flag, the delimiter after it ends the frame, and the
  next delimiter starts a frame with the flag still set; the first byte stored in that
  frame, \<open>DC\<close>, is then taken as a transposed delimiter and stored as \<open>C0\<close>. The idle
  timeout, the other place where the reader resets its locals, does clear the flag.
\<close>

theorem escape_flag_survives_frame_boundary:
  "readLoop (feed full_write [0xC0, 0x00, 0xDB, 0xC0, 0xC0])
       (reader_start full_write, example_iface) =
     (Running,
      \<lparr>in_frame = True, escape = True, command = CMD_UNKNOWN, data_buffer = [],
       last_read_ms = 0\<rparr>, example_iface) \<and>
   readLoop (feed full_write [0xC0, 0x00, 0xDB, 0xC0, 0xC0, 0x00, 0xDC])
       (reader_start full_write, example_iface) =
     (Running,
      \<lparr>in_frame = True, escape = False, command = CMD_DATA, data_buffer = [0xC0],
       last_read_ms = 0\<rparr>, example_iface) \<and>
   readLoop [(late, None)]
       (\<lparr>in_frame = True, escape = True, command = CMD_DATA, data_buffer = [0x01],
         last_read_ms = 0\<rparr>, example_iface) =
     (Running,
      \<lparr>in_frame = False, escape = False, command = CMD_UNKNOWN, data_buffer = [],
       last_read_ms = 0\<rparr>, example_iface)"
  by (simp add: feed_def reader_start_def full_write_def late_def example_iface_fields
      read_byte_def read_idle_def Let_def process_incoming_def)

subsection \<open>A data frame through the reader\<close>

text \<open>One payload byte, escaped, through the reader in data mode.\<close>

lemma read_byte_FESC:
  assumes "in_frame r" "command r = CMD_DATA" "\<not> escape r"
  shows "\<exists>r'. read_byte e FESC (r, s) = (None, r', s) \<and> in_frame r' \<and> command r' = CMD_DATA \<and>
           data_buffer r' = data_buffer r \<and>
           escape r' = (length (data_buffer r) < HW_MTU s + 16)"
  using assms by (simp add: read_byte_def Let_def)

lemma read_byte_transposed:
  assumes "in_frame r" "command r = CMD_DATA" "escape r = (length (data_buffer r) < HW_MTU s + 16)"
    and "b = TFEND \<or> b = TFESC" and "length (data_buffer r) \<le> HW_MTU s + 16"
  shows "\<exists>r'. read_byte e b (r, s) = (None, r', s) \<and> in_frame r' \<and> command r' = CMD_DATA \<and>
           \<not> escape r' \<and>
           data_buffer r' = take (HW_MTU s + 16) (data_buffer r @ [if b = TFEND then FEND else FESC])"
  using assms by (auto simp: read_byte_def Let_def)

lemma read_byte_plain:
  assumes "in_frame r" "command r = CMD_DATA" "\<not> escape r" "b \<noteq> FEND" "b \<noteq> FESC"
    and "length (data_buffer r) \<le> HW_MTU s + 16"
  shows "\<exists>r'. read_byte e b (r, s) = (None, r', s) \<and> in_frame r' \<and> command r' = CMD_DATA \<and>
           \<not> escape r' \<and> data_buffer r' = take (HW_MTU s + 16) (data_buffer r @ [b])"
  using assms by (auto simp: read_byte_def Let_def)

text \<open>
  The escaped form of \<open>xs\<close> appends \<open>xs\<close> to the buffer, up to the cap of
  \<open>HW_MTU + 16\<close> bytes, and leaves the escape flag clear.
\<close>

lemma readLoop_escaped:
  assumes "serial s = Some True" "in_frame r" "command r = CMD_DATA" "\<not> escape r"
    and "length (data_buffer r) \<le> HW_MTU s + 16"
    and "map snd evs = map Some (escape_spec xs)"
  shows "\<exists>r'. readLoop (evs @ rest) (r, s) = readLoop rest (r', s) \<and>
           in_frame r' \<and> command r' = CMD_DATA \<and> \<not> escape r' \<and>
           data_buffer r' = take (HW_MTU s + 16) (data_buffer r @ xs)"
  using assms
proof (induction xs arbitrary: r evs)
  case Nil
  then show ?case by (auto simp: escape_spec_Nil)
next
  case (Cons x xs)
  let ?cap = "HW_MTU s + 16"
  have "\<exists>r1 evs'. readLoop (evs @ rest) (r, s) = readLoop (evs' @ rest) (r1, s) \<and>
          map snd evs' = map Some (escape_spec xs) \<and>
          in_frame r1 \<and> command r1 = CMD_DATA \<and> \<not> escape r1 \<and>
          data_buffer r1 = take ?cap (data_buffer r @ [x])"
  proof (cases "x = FESC \<or> x = FEND")
    case True
    with Cons.prems(6) obtain e1 e2 evs' where
      evs: "evs = (e1, Some FESC) # (e2, Some (if x = FEND then TFEND else TFESC)) # evs'"
      and rest: "map snd evs' = map Some (escape_spec xs)"
      by (auto simp: escape_spec_Cons map_eq_Cons_conv)
    from read_byte_FESC [OF Cons.prems(2,3,4), of e1 s] obtain ra where
      ra: "read_byte e1 FESC (r, s) = (None, ra, s)" "in_frame ra" "command ra = CMD_DATA"
        "data_buffer ra = data_buffer r" "escape ra = (length (data_buffer r) < ?cap)"
      by auto
    let ?t = "if x = FEND then TFEND else TFESC"
    have "\<exists>r'. read_byte e2 ?t (ra, s) = (None, r', s) \<and> in_frame r' \<and> command r' = CMD_DATA \<and>
           \<not> escape r' \<and>
           data_buffer r' = take ?cap (data_buffer ra @ [if ?t = TFEND then FEND else FESC])"
      by (rule read_byte_transposed) (use ra Cons.prems(5) in auto)
    then obtain rb where
      rb: "read_byte e2 ?t (ra, s) = (None, rb, s)" "in_frame rb" "command rb = CMD_DATA"
        "\<not> escape rb" "data_buffer rb = take ?cap (data_buffer r @ [x])"
      using True ra(4) by auto
    have "readLoop (evs @ rest) (r, s) = readLoop (evs' @ rest) (rb, s)"
      using Cons.prems(1) ra(1) rb(1) by (simp add: evs)
    with rest rb show ?thesis by blast
  next
    case False
    with Cons.prems(6) obtain e1 evs' where
      evs: "evs = (e1, Some x) # evs'" and rest: "map snd evs' = map Some (escape_spec xs)"
      by (auto simp: escape_spec_Cons map_eq_Cons_conv)
    from False have "x \<noteq> FEND" "x \<noteq> FESC" by auto
    from read_byte_plain [OF Cons.prems(2,3,4) this Cons.prems(5), of e1] obtain ra where
      ra: "read_byte e1 x (r, s) = (None, ra, s)" "in_frame ra" "command ra = CMD_DATA"
        "\<not> escape ra" "data_buffer ra = take ?cap (data_buffer r @ [x])"
      by auto
    have "readLoop (evs @ rest) (r, s) = readLoop (evs' @ rest) (ra, s)"
      using Cons.prems(1) ra(1) by (simp add: evs)
    with rest ra show ?thesis by blast
  qed
  then obtain r1 evs' where
    step: "readLoop (evs @ rest) (r, s) = readLoop (evs' @ rest) (r1, s)"
    and evs': "map snd evs' = map Some (escape_spec xs)"
    and r1: "in_frame r1" "command r1 = CMD_DATA" "\<not> escape r1"
      "data_buffer r1 = take ?cap (data_buffer r @ [x])"
    by blast
  have len: "length (data_buffer r1) \<le> ?cap" by (simp add: r1(4))
  from Cons.IH [OF Cons.prems(1) r1(1,2,3) len evs'] obtain r' where
    r': "readLoop (evs' @ rest) (r1, s) = readLoop rest (r', s)" "in_frame r'"
      "command r' = CMD_DATA" "\<not> escape r'"
      "data_buffer r' = take ?cap (data_buffer r1 @ xs)"
    by blast
  have "take ?cap (data_buffer r1 @ xs) = take ?cap (data_buffer r @ x # xs)"
  proof (cases "length (data_buffer r) < ?cap")
    case True
    then show ?thesis by (simp add: r1(4))
  next
    case False
    then show ?thesis by (simp add: r1(4))
  qed
  with step r' show ?case by auto
qed

text \<open>
  A whole frame: the delimiter opens it, the command byte selects data, the escaped
  header and payload fill the buffer, and the closing delimiter hands the buffer to
  \<open>process_incoming\<close>.
\<close>

lemma readLoop_data_frame:
  assumes frame: "kiss_frame s0 P = Inr f"
    and evs: "map snd evs = map Some f"
    and s: "serial s = Some True"
    and r: "\<not> (in_frame r \<and> command r = CMD_DATA)" "\<not> escape r"
  shows "\<exists>r' h. ax25_header s0 = Inr h \<and>
           readLoop evs (r, s) =
             (Running, r', process_incoming (take (HW_MTU s + 16) (h @ P)) s) \<and>
           \<not> in_frame r'"
proof -
  from frame obtain h where h: "ax25_header s0 = Inr h"
    and f: "f = FEND # 0x00 # escape_spec (h @ P) @ [FEND]"
    by (auto simp: kiss_frame_eq split: sum.splits)
  from evs obtain e1 e2 mid e3 where
    script: "evs = (e1, Some FEND) # (e2, Some 0x00) # mid @ [(e3, Some FEND)]"
    and mid: "map snd mid = map Some (escape_spec (h @ P))"
    by (auto simp: f map_eq_Cons_conv map_eq_append_conv)
  let ?r1 = "r\<lparr>last_read_ms := now_ms e1, in_frame := True, command := CMD_UNKNOWN,
              data_buffer := []\<rparr>"
  let ?r2 = "?r1\<lparr>last_read_ms := now_ms e2, command := 0x00 AND 0x0F\<rparr>"
  have 1: "read_byte e1 FEND (r, s) = (None, ?r1, s)"
    using r(1) by (rule read_byte_frame_start)
  have 2: "read_byte e2 0x00 (?r1, s) = (None, ?r2, s)"
    by (rule read_byte_command) simp_all
  have "\<exists>r3. readLoop (mid @ [(e3, Some FEND)]) (?r2, s) = readLoop [(e3, Some FEND)] (r3, s) \<and>
           in_frame r3 \<and> command r3 = CMD_DATA \<and> \<not> escape r3 \<and>
           data_buffer r3 = take (HW_MTU s + 16) (data_buffer ?r2 @ (h @ P))"
    by (rule readLoop_escaped) (use s r(2) mid in simp_all)
  then obtain r3 where
    3: "readLoop (mid @ [(e3, Some FEND)]) (?r2, s) = readLoop [(e3, Some FEND)] (r3, s)"
    and r3: "in_frame r3" "command r3 = CMD_DATA"
      "data_buffer r3 = take (HW_MTU s + 16) (h @ P)"
    by auto
  have 4: "read_byte e3 FEND (r3, s) =
     (None, r3\<lparr>last_read_ms := now_ms e3, in_frame := False\<rparr>,
      process_incoming (take (HW_MTU s + 16) (h @ P)) s)"
    using read_byte_frame_end [OF r3(1,2), of e3 s] by (simp add: r3(3))
  have "readLoop evs (r, s) =
     (Running, r3\<lparr>last_read_ms := now_ms e3, in_frame := False\<rparr>,
      process_incoming (take (HW_MTU s + 16) (h @ P)) s)"
    using s 1 2 3 4 by (simp add: script)
  with h show ?thesis by simp
qed

text \<open>
  Claim C1, as amended. A data frame built by \<open>kiss_frame\<close> for a payload of at least
  one byte and at most \<open>HW_MTU\<close> bytes (564 on every constructed interface), fed byte
  by byte to a reader that is not inside a data frame and whose escape flag is clear,
  is delivered to the owner exactly once, and the delivered payload is the payload the
  frame was built for: the reader undoes the escaping and strips the 16 header bytes.
  The loop is still running afterwards, and the reader is out of the frame.
\<close>

theorem data_frame_round_trip:
  assumes "kiss_frame s0 P = Inr f"
    and "map snd evs = map Some f"
    and "serial s = Some True"
    and "\<not> (in_frame r \<and> command r = CMD_DATA)" and "\<not> escape r"
    and "P \<noteq> []" and "length P \<le> HW_MTU s"
  shows "\<exists>r'. readLoop evs (r, s) =
           (Running, r', s\<lparr>rxb := rxb s + (16 + length P),
                            inbound_log := inbound_log s @ [P]\<rparr>) \<and> \<not> in_frame r'"
proof -
  from readLoop_data_frame [OF assms(1-5)] obtain r' h where
    h: "ax25_header s0 = Inr h"
    and run: "readLoop evs (r, s) =
       (Running, r', process_incoming (take (HW_MTU s + 16) (h @ P)) s)"
    and r': "\<not> in_frame r'"
    by blast
  have len: "length h = 16" using h by (rule ax25_header_length)
  with assms(7) have "take (HW_MTU s + 16) (h @ P) = h @ P" by simp
  moreover have "process_incoming (h @ P) s =
      s\<lparr>rxb := rxb s + (16 + length P), inbound_log := inbound_log s @ [P]\<rparr>"
    using len assms(6) by (simp add: process_incoming_def)
  ultimately show ?thesis using run r' by simp
qed

theorem data_frame_round_trip_witness:
  "kiss_frame example_iface [0x68, 0x69] =
     Inr [0xC0, 0x00, 0x82, 0xA0, 0xB4, 0xA4, 0x9C, 0xA6, 0x60, 0x82, 0x84, 0x86, 0x20, 0x20,
          0x20, 0x6B, 0x03, 0xF0, 0x68, 0x69, 0xC0] \<and>
   (\<exists>r'. readLoop (feed full_write [0xC0, 0x00, 0x82, 0xA0, 0xB4, 0xA4, 0x9C, 0xA6, 0x60, 0x82,
             0x84, 0x86, 0x20, 0x20, 0x20, 0x6B, 0x03, 0xF0, 0x68, 0x69, 0xC0])
           (reader_start full_write, example_iface) =
        (Running, r', example_iface\<lparr>rxb := 18, inbound_log := [[0x68, 0x69]]\<rparr>) \<and>
        \<not> in_frame r')"
proof -
  let ?f = "[0xC0, 0x00, 0x82, 0xA0, 0xB4, 0xA4, 0x9C, 0xA6, 0x60, 0x82, 0x84, 0x86, 0x20,
             0x20, 0x20, 0x6B, 0x03, 0xF0, 0x68, 0x69, 0xC0] :: byte list"
  have script: "map snd (feed full_write ?f) = map Some ?f"
    by (simp add: feed_def)
  have r: "\<not> (in_frame (reader_start full_write) \<and> command (reader_start full_write) = CMD_DATA)"
    "\<not> escape (reader_start full_write)"
    by (simp_all add: reader_start_def)
  have P: "[0x68, 0x69] \<noteq> ([] :: byte list)"
    "length [0x68, 0x69 :: byte] \<le> HW_MTU example_iface"
    by (simp_all add: example_iface_fields)
  from data_frame_round_trip [OF example_frame_hi script example_iface_fields(1) r P]
  show ?thesis
    by (simp add: example_frame_hi example_iface_fields del: readLoop.simps)
qed

text \<open>
  Claim C1 as stated fails for a payload longer than \<open>HW_MTU\<close>: the reader stops
  storing at \<open>HW_MTU + 16\<close> bytes, so of a payload of 565 bytes the owner gets the
  first 564.
\<close>

theorem oversize_payload_truncated:
  "kiss_frame example_iface (replicate 565 0x41) =
     Inr ([0xC0, 0x00, 0x82, 0xA0, 0xB4, 0xA4, 0x9C, 0xA6, 0x60, 0x82, 0x84, 0x86, 0x20, 0x20,
           0x20, 0x6B, 0x03, 0xF0] @ replicate 565 0x41 @ [0xC0]) \<and>
   inbound_log (snd (snd (readLoop
       (feed full_write ([0xC0, 0x00, 0x82, 0xA0, 0xB4, 0xA4, 0x9C, 0xA6, 0x60, 0x82, 0x84,
           0x86, 0x20, 0x20, 0x20, 0x6B, 0x03, 0xF0] @ replicate 565 0x41 @ [0xC0]))
       (reader_start full_write, example_iface)))) = [replicate 564 0x41] \<and>
   replicate 564 (0x41 :: byte) \<noteq> replicate 565 0x41"
proof -
  let ?P = "replicate 565 (0x41 :: byte)"
  let ?h = "[0x82, 0xA0, 0xB4, 0xA4, 0x9C, 0xA6, 0x60, 0x82, 0x84, 0x86, 0x20, 0x20,
           0x20, 0x6B, 0x03, 0xF0] :: byte list"
  let ?f = "[0xC0, 0x00] @ ?h @ ?P @ [0xC0]"
  have frame: "kiss_frame example_iface ?P = Inr ?f"
    using example_frame_plain [of ?P] by simp
  have script: "map snd (feed full_write ?f) = map Some ?f"
    by (simp add: feed_def)
  have r: "\<not> (in_frame (reader_start full_write) \<and> command (reader_start full_write) = CMD_DATA)"
    "\<not> escape (reader_start full_write)"
    by (simp_all add: reader_start_def)
  from readLoop_data_frame [OF frame script example_iface_fields(1) r]
  obtain r' h where h: "ax25_header example_iface = Inr h"
    and run: "readLoop (feed full_write ?f) (reader_start full_write, example_iface) =
      (Running, r', process_incoming (take (HW_MTU example_iface + 16) (h @ ?P)) example_iface)"
    by blast
  from h have h_eq: "h = ?h"
    by (simp add: example_header)
  have "take (HW_MTU example_iface + 16) (?h @ ?P) = ?h @ replicate 564 0x41"
    by (simp add: example_iface_fields)
  then have "inbound_log (process_incoming (take (HW_MTU example_iface + 16) (?h @ ?P)) example_iface)
      = [replicate 564 0x41]"
    by (simp add: process_incoming_def example_iface_fields)
  moreover have "replicate 564 (0x41 :: byte) \<noteq> replicate 565 0x41"
    by (simp add: replicate_eq_replicate)
  ultimately show ?thesis
    using frame run unfolding h_eq by simp
qed

subsection \<open>What every reachable state satisfies\<close>

lemma iface_inv_cong:
  assumes "iface_inv s"
    and "timeout s' = timeout s" "HW_MTU s' = HW_MTU s"
    and "src_call s' = src_call s" "src_ssid s' = src_ssid s" "dst_call s' = dst_call s"
      "dst_ssid s' = dst_ssid s"
    and "flow_control s' = flow_control s"
    and "flow_control s \<or> (interface_ready s' \<and> packet_queue s' = [])"
  shows "iface_inv s'"
proof -
  have "ax25_header s' = ax25_header s"
    using assms(4-7) by (rule ax25_header_cong)
  with assms show ?thesis
    by (simp add: iface_inv_def)
qed

lemma process_outgoing_inv:
  assumes "iface_inv s"
  shows "iface_inv (snd (process_outgoing e data s))"
proof -
  let ?s1 = "if flow_control s
             then s\<lparr>interface_ready := False, flow_control_locked := now_lock e\<rparr> else s"
  from assms obtain h where "ax25_header s = Inr h"
    by (auto simp: iface_inv_def)
  then obtain f where "kiss_frame s data = Inr f"
    using kiss_frame_Inr by blast
  then have f: "kiss_frame ?s1 data = Inr f"
    by (simp add: kiss_frame_flags)
  show ?thesis
    by (rule iface_inv_cong [OF assms])
       (use assms f in \<open>auto simp: process_outgoing_def Let_def queue_def iface_inv_def\<close>)
qed

lemma process_queue_inv:
  assumes "iface_inv s"
  shows "iface_inv (snd (process_queue e s))"
proof (cases "packet_queue s")
  case Nil
  with assms show ?thesis
    by (auto simp: process_queue_def intro: iface_inv_cong [OF assms])
next
  case (Cons d q)
  from assms have fc: "flow_control s"
    by (auto simp: iface_inv_def Cons)
  have "iface_inv (s\<lparr>packet_queue := q, interface_ready := True\<rparr>)"
    by (rule iface_inv_cong [OF assms]) (simp_all add: fc)
  then have "iface_inv (snd (process_outgoing e d (s\<lparr>packet_queue := q, interface_ready := True\<rparr>)))"
    by (rule process_outgoing_inv)
  then show ?thesis
    by (simp add: process_queue_def Cons Let_def)
qed

lemma process_incoming_inv:
  assumes "iface_inv s"
  shows "iface_inv (process_incoming d s)"
  by (rule iface_inv_cong [OF assms]) (use assms in \<open>auto simp: process_incoming_def iface_inv_def\<close>)

lemma read_byte_inv:
  assumes "iface_inv s" and "read_byte e b (r, s) = (res, r', s')"
  shows "iface_inv s'"
  using assms process_queue_inv [OF assms(1), of e] process_incoming_inv [OF assms(1)]
  by (auto simp: read_byte_def Let_def split: if_splits prod.splits)

lemma read_idle_inv:
  assumes "iface_inv s" and "read_idle e (r, s) = (res, r', s')"
  shows "iface_inv s'"
  using assms process_queue_inv [OF assms(1), of e]
  by (auto simp: read_idle_def Let_def split: if_splits prod.splits)

lemma offline_inv:
  assumes "iface_inv s"
  shows "iface_inv (s\<lparr>online := False, serial := Some False\<rparr>)"
  by (rule iface_inv_cong [OF assms]) (use assms in \<open>auto simp: iface_inv_def\<close>)

lemma readLoop_step_inv:
  assumes "iface_inv s" and "readLoop [(e, x)] (r, s) = (res, r', s')"
  shows "iface_inv s'"
proof (cases "serial s = Some True")
  case False
  with assms show ?thesis
    by (auto intro: offline_inv)
next
  case True
  obtain res1 r1 s1 where
    it: "(case x of Some byte \<Rightarrow> read_byte e byte (r, s) | None \<Rightarrow> read_idle e (r, s)) = (res1, r1, s1)"
    by (metis prod_cases3)
  then have "iface_inv s1"
    using assms(1) by (auto split: option.splits dest: read_byte_inv read_idle_inv)
  with assms(2) True it show ?thesis
    by (cases res1) (auto intro: offline_inv)
qed

lemma write_command_fields:
  "write_command err e c s = (res, s') \<Longrightarrow> s' = s\<lparr>tx_log := tx_log s @ [c]\<rparr>"
  by (auto simp: write_command_def Let_def split: if_splits)

text \<open>
  \<open>configure_device\<close> writes to the log, sets \<open>online\<close>, and sets the ready flag when
  it returns; it touches nothing else.
\<close>

lemma configure_device_fields:
  assumes "configure_device e s = (res, s')"
  shows "timeout s' = timeout s \<and> HW_MTU s' = HW_MTU s \<and> src_call s' = src_call s \<and>
         src_ssid s' = src_ssid s \<and> dst_call s' = dst_call s \<and> dst_ssid s' = dst_ssid s \<and>
         flow_control s' = flow_control s \<and> packet_queue s' = packet_queue s \<and>
         serial s' = serial s \<and> online s' \<and>
         (interface_ready s' \<or> interface_ready s' = interface_ready s) \<and>
         (res = None \<longrightarrow> interface_ready s')"
proof -
  have w: "\<exists>l. s1 = s0\<lparr>tx_log := l\<rparr>" if "write_command err e c s0 = (res1, s1)"
    for err c s0 res1 s1
    using write_command_fields [OF that] by blast
  from assms show ?thesis
    unfolding configure_device_def Let_def and_then_def setPreamble_def setTxTail_def
      setPersistence_def setSlotTime_def setFlowControl_def
    by (auto split: prod.splits option.splits sum.splits dest!: w)
qed

lemma configure_device_inv:
  assumes "iface_inv s"
  shows "iface_inv (snd (configure_device e s))"
proof -
  obtain res s' where c: "configure_device e s = (res, s')"
    by (cases "configure_device e s")
  from configure_device_fields [OF c] assms have "iface_inv s'"
    by (intro iface_inv_cong [OF assms]) (auto simp: iface_inv_def)
  with c show ?thesis by simp
qed

lemma open_port_inv:
  assumes "iface_inv s"
  shows "iface_inv (snd (open_port oo s))"
  by (cases oo; simp add: open_port_def; rule iface_inv_cong [OF assms])
     (use assms in \<open>auto simp: iface_inv_def\<close>)

lemma reconnect_attempt_inv:
  assumes "iface_inv s" and "reconnect_attempt oo e (r, s) = (r', s')"
  shows "iface_inv s'"
proof -
  obtain res s1 where o: "open_port oo s = (res, s1)"
    by (cases "open_port oo s")
  with open_port_inv [OF assms(1), of oo] have s1: "iface_inv s1"
    by simp
  then have "iface_inv (snd (configure_device e s1))"
    by (rule configure_device_inv)
  with s1 o assms(2) show ?thesis
    by (auto simp: reconnect_attempt_def split: option.splits if_splits)
qed

lemma init_inv:
  assumes "init uc c t0 oo e = (None, s)"
  shows "iface_inv s \<and> online s \<and> serial s = Some True \<and> packet_queue s = [] \<and> interface_ready s"
proof -
  from assms obtain encoded where enc: "encode_ascii (upper uc (conf_callsign c)) = Inr encoded"
    by (cases "encode_ascii (upper uc (conf_callsign c))")
       (auto simp: init_def Let_def split: if_splits)
  define s0 where "s0 = blank\<lparr>HW_MTU := 564, serial := None,
      src_call := encoded, src_ssid := conf_ssid c,
      dst_call := APZRNS, dst_ssid := 0, timeout := 100, online := False, packet_queue := [],
      flow_control := (case c_flow_control c of Some b \<Rightarrow> b | None \<Rightarrow> False),
      interface_ready := False, flow_control_timeout := 5, flow_control_locked := t0,
      preamble := (case c_preamble c of Some v \<Rightarrow> v | None \<Rightarrow> 350),
      txtail := (case c_txtail c of Some v \<Rightarrow> v | None \<Rightarrow> 20),
      persistence := (case c_persistence c of Some v \<Rightarrow> v | None \<Rightarrow> 64),
      slottime := (case c_slottime c of Some v \<Rightarrow> v | None \<Rightarrow> 20)\<rparr>"
  from assms have ssid: "0 \<le> conf_ssid c" "conf_ssid c \<le> 15"
    by (auto simp: init_def Let_def enc split: if_splits)
  from assms have conf: "configure_device e (s0\<lparr>serial := Some True, port_opens := port_opens s0 + 1\<rparr>) = (None, s)"
    by (auto simp: init_def Let_def enc s0_def open_port_def split: if_splits open_outcome.splits)
  let ?s1 = "s0\<lparr>serial := Some True, port_opens := port_opens s0 + 1\<rparr>"
  have "\<exists>h. ax25_header ?s1 = Inr h"
    by (rule ax25_header_ok)
       (use ssid encode_ascii_range [OF enc] APZRNS_range in \<open>simp_all add: s0_def\<close>)
  moreover from configure_device_fields [OF conf] have f: "timeout s = timeout ?s1"
    "HW_MTU s = HW_MTU ?s1" "src_call s = src_call ?s1" "src_ssid s = src_ssid ?s1"
    "dst_call s = dst_call ?s1" "dst_ssid s = dst_ssid ?s1" "packet_queue s = packet_queue ?s1"
    "serial s = serial ?s1" "online s" "interface_ready s"
    by simp_all
  moreover have "ax25_header s = ax25_header ?s1"
    by (rule ax25_header_cong) (simp_all only: f)
  ultimately show ?thesis
    by (simp add: iface_inv_def s0_def)
qed

lemma reachable_inv: "reachable rs \<Longrightarrow> iface_inv (snd rs)"
proof (induction rule: reachable.induct)
  case (start uc c t0 oo e s)
  then show ?case by (simp add: init_inv)
next
  case (send r s e data res s')
  from process_outgoing_inv [OF send.IH [simplified], of e data] send.hyps(2)
  show ?case by simp
next
  case (read r s e x res r' s')
  then show ?case by (auto dest: readLoop_step_inv)
next
  case (fail r s)
  then show ?case by (simp add: offline_inv)
next
  case (reconnect r s oo e r' s')
  then show ?case by (auto dest: reconnect_attempt_inv)
qed

lemma example_reachable: "reachable (reader_start full_write, example_iface)"
  by (rule reachable.start [of latin1_upper example_config 0 "OpenReturns True"])
     (simp add: example_init example_iface_eq)

lemma example_reachable_mid_frame:
  "reachable (\<lparr>in_frame = True, escape = False, command = CMD_DATA, data_buffer = [0x41],
               last_read_ms = 0\<rparr>, example_iface)"
proof -
  let ?r1 = "\<lparr>in_frame = True, escape = False, command = CMD_UNKNOWN, data_buffer = [],
               last_read_ms = 0\<rparr>"
  let ?r2 = "\<lparr>in_frame = True, escape = False, command = CMD_DATA, data_buffer = [],
               last_read_ms = 0\<rparr>"
  let ?r3 = "\<lparr>in_frame = True, escape = False, command = CMD_DATA, data_buffer = [0x41],
               last_read_ms = 0\<rparr>"
  have 1: "readLoop [(full_write, Some 0xC0)] (reader_start full_write, example_iface) =
      (Running, ?r1, example_iface)"
    by (simp add: example_iface_fields read_byte_def Let_def reader_start_def full_write_def)
  have 2: "readLoop [(full_write, Some 0x00)] (?r1, example_iface) = (Running, ?r2, example_iface)"
    by (simp add: example_iface_fields read_byte_def Let_def full_write_def)
  have 3: "readLoop [(full_write, Some 0x41)] (?r2, example_iface) = (Running, ?r3, example_iface)"
    by (simp add: example_iface_fields read_byte_def Let_def full_write_def)
  note on = example_iface_fields(5)
  from example_reachable on 1 have "reachable (?r1, example_iface)" by (rule reachable.read)
  from this on 2 have "reachable (?r2, example_iface)" by (rule reachable.read)
  from this on 3 show ?thesis by (rule reachable.read)
qed

lemma queued_reachable: "reachable (reader_start full_write, queued_iface)"
proof -
  have "reachable (reader_start full_write, fc_iface)"
    by (rule reachable.start [of latin1_upper "example_config\<lparr>c_flow_control := Some True\<rparr>"
          0 "OpenReturns True"]) (simp add: fc_init fc_iface_eq)
  then have "reachable (reader_start full_write, snd (process_outgoing full_write [0x01] fc_iface))"
    by (rule reachable.send) (rule surjective_pairing)
  then have "reachable (reader_start full_write,
      snd (process_outgoing full_write [0x02] (snd (process_outgoing full_write [0x01] fc_iface))))"
    by (rule reachable.send) (rule surjective_pairing)
  then have "reachable (reader_start full_write,
      snd (process_outgoing full_write [0x03]
        (snd (process_outgoing full_write [0x02] (snd (process_outgoing full_write [0x01] fc_iface))))))"
    by (rule reachable.send) (rule surjective_pairing)
  then have "reachable (reader_start full_write,
      snd (process_outgoing full_write [0x04] (snd (process_outgoing full_write [0x03]
        (snd (process_outgoing full_write [0x02] (snd (process_outgoing full_write [0x01] fc_iface))))))))"
    by (rule reachable.send) (rule surjective_pairing)
  then show ?thesis by (simp only: queued_iface_def)
qed

text \<open>
  Claim C5. In every state the running interface can reach with flow control
  disabled, the ready flag is set and the transmit queue is empty; and when the
  interface is online, \<open>process_outgoing\<close> builds the frame and hands it to the
  transport in that call, leaving the queue as it is.
\<close>

theorem no_flow_control_always_ready:
  assumes "reachable (r, s)" and "\<not> flow_control s"
  shows "interface_ready s \<and> packet_queue s = [] \<and>
         (online s \<longrightarrow>
            (\<exists>frame. kiss_frame s data = Inr frame \<and>
               process_outgoing e data s =
                 (if wr e frame = int (length frame) then None else Some IOError,
                  s\<lparr>tx_log := tx_log s @ [frame], txb := txb s + length data\<rparr>)))"
proof -
  from assms(1) have inv: "iface_inv s"
    using reachable_inv by fastforce
  with assms(2) have ready: "interface_ready s" "packet_queue s = []"
    by (simp_all add: iface_inv_def)
  from inv obtain h where "ax25_header s = Inr h"
    by (auto simp: iface_inv_def)
  then obtain frame where f: "kiss_frame s data = Inr frame"
    using kiss_frame_Inr by blast
  have "process_outgoing e data s =
      (if wr e frame = int (length frame) then None else Some IOError,
       s\<lparr>tx_log := tx_log s @ [frame], txb := txb s + length data\<rparr>)" if "online s"
    using that ready assms(2) f by (simp add: process_outgoing_def Let_def)
  with ready f show ?thesis by simp
qed

theorem no_flow_control_always_ready_witness:
  "reachable (reader_start full_write, example_iface) \<and> \<not> flow_control example_iface \<and>
   online example_iface \<and> interface_ready example_iface \<and> packet_queue example_iface = [] \<and>
   process_outgoing full_write [0x68, 0x69] example_iface =
     (None,
      example_iface\<lparr>tx_log := tx_log example_iface @
          [[0xC0, 0x00, 0x82, 0xA0, 0xB4, 0xA4, 0x9C, 0xA6, 0x60, 0x82, 0x84, 0x86, 0x20, 0x20,
            0x20, 0x6B, 0x03, 0xF0, 0x68, 0x69, 0xC0]],
        txb := 2\<rparr>)"
  using no_flow_control_always_ready [OF example_reachable example_iface_fields(6),
      of "[0x68, 0x69]" full_write] example_reachable
  by (simp add: example_iface_fields example_frame_hi) (simp add: full_write_def)

text \<open>
  Claim C8. The idle timeout of every running interface is 100 ms. An iteration of
  the reader with no input, at a clock reading \<open>now_ms e\<close>, resets the locals
  (buffer emptied, out of the frame, command unknown, escape flag clear) exactly when
  the buffer is not empty and more than 100 ms have passed since the last byte;
  otherwise, and so whenever the buffer is empty, it leaves them as they are.
\<close>

theorem idle_timeout_reset:
  assumes "reachable (r, s)" and "read_idle e (r, s) = (res, r', s')"
  shows "timeout s = 100 \<and>
         r' = (if data_buffer r \<noteq> [] \<and> now_ms e - last_read_ms r > 100
               then r\<lparr>data_buffer := [], in_frame := False, command := CMD_UNKNOWN,
                      escape := False\<rparr>
               else r)"
proof -
  from assms(1) have t: "timeout s = 100"
    using reachable_inv by (fastforce simp: iface_inv_def)
  with assms(2) show ?thesis
    by (auto simp: read_idle_def Let_def split: if_splits prod.splits)
qed

theorem idle_timeout_reset_witness:
  "reachable (\<lparr>in_frame = True, escape = False, command = CMD_DATA, data_buffer = [0x41],
               last_read_ms = 0\<rparr>, example_iface) \<and>
   timeout example_iface = 100 \<and> now_ms late = 101 \<and>
   read_idle late (\<lparr>in_frame = True, escape = False, command = CMD_DATA, data_buffer = [0x41],
               last_read_ms = 0\<rparr>, example_iface) =
     (None, \<lparr>in_frame = False, escape = False, command = CMD_UNKNOWN, data_buffer = [],
               last_read_ms = 0\<rparr>, example_iface) \<and>
   read_idle late (reader_start full_write, example_iface) =
     (None, reader_start full_write, example_iface)"
proof -
  let ?r = "\<lparr>in_frame = True, escape = False, command = CMD_DATA, data_buffer = [0x41],
               last_read_ms = 0\<rparr>"
  obtain res r' s' where a: "read_idle late (?r, example_iface) = (res, r', s')"
    by (metis prod_cases3)
  obtain res2 r2 s2 where b: "read_idle late (reader_start full_write, example_iface) = (res2, r2, s2)"
    by (metis prod_cases3)
  have l: "now_ms late = 101"
    by (simp add: late_def)
  have e: "data_buffer (reader_start full_write) = []"
    by (simp add: reader_start_def)
  from a have a': "res = None" "s' = example_iface"
    by (simp_all add: read_idle_def Let_def example_iface_fields)
  from b have b': "res2 = None" "s2 = example_iface"
    by (simp_all add: read_idle_def Let_def example_iface_fields)
  from idle_timeout_reset [OF example_reachable_mid_frame a]
    idle_timeout_reset [OF example_reachable b]
  show ?thesis
    using example_reachable_mid_frame e by (simp add: a b a' b' l)
qed

subsection \<open>Ready signals\<close>

text \<open>
  \<open>process_queue\<close> on an online interface whose transport writes completely: the
  oldest queued payload, if there is one, leaves the queue and its frame is written.
\<close>

lemma process_queue_effect:
  assumes "online s" and "ax25_header s = Inr h" and "wr e = (\<lambda>frame. int (length frame))"
  shows "\<exists>s'. process_queue e s = (None, s') \<and>
           packet_queue s' = drop 1 (packet_queue s) \<and>
           map Inr (tx_log s') = map Inr (tx_log s) @ map (kiss_frame s) (take 1 (packet_queue s)) \<and>
           online s' \<and> serial s' = serial s \<and> HW_MTU s' = HW_MTU s \<and>
           src_call s' = src_call s \<and> src_ssid s' = src_ssid s \<and>
           dst_call s' = dst_call s \<and> dst_ssid s' = dst_ssid s"
proof (cases "packet_queue s")
  case Nil
  with assms(1) show ?thesis by (simp add: process_queue_def)
next
  case (Cons d q)
  from assms(2) obtain f where f: "kiss_frame s d = Inr f"
    using kiss_frame_Inr by blast
  let ?s2 = "s\<lparr>packet_queue := q, interface_ready := True\<rparr>"
  let ?s3 = "if flow_control s
             then ?s2\<lparr>interface_ready := False, flow_control_locked := now_lock e\<rparr> else ?s2"
  have "kiss_frame ?s3 d = kiss_frame s d"
    by (rule kiss_frame_cong) simp_all
  with f have f3: "kiss_frame ?s3 d = Inr f" by simp
  show ?thesis
    using assms(1,3) f f3 by (simp add: process_queue_def Cons Let_def process_outgoing_def)
qed

lemma ready_not_FEND: "c AND 0x0F = CMD_READY \<Longrightarrow> c \<noteq> FEND"
  by auto

lemma read_byte_ready:
  assumes "in_frame r" "command r = CMD_READY" "data_buffer r = []" "v \<noteq> FEND"
  shows "read_byte e v (r, s) =
     (fst (process_queue e s), r\<lparr>last_read_ms := now_ms e\<rparr>, snd (process_queue e s))"
  using assms by (simp add: read_byte_def Let_def split: prod.splits)

text \<open>
  A ready frame with one value byte: the command byte only selects the command, and
  the value byte is what calls \<open>process_queue\<close>.
\<close>

lemma readLoop_ready_frame:
  assumes s: "serial s = Some True" "online s" "ax25_header s = Inr h"
    and r: "\<not> (in_frame r \<and> command r = CMD_DATA)"
    and c: "c AND 0x0F = CMD_READY" and v: "v \<noteq> FEND"
    and w: "wr e3 = (\<lambda>frame. int (length frame))"
  shows "\<exists>r' s'. readLoop ((e1, Some FEND) # (e2, Some c) # (e3, Some v) # (e4, Some FEND) # rest) (r, s) =
             readLoop rest (r', s') \<and>
           \<not> (in_frame r' \<and> command r' = CMD_DATA) \<and>
           packet_queue s' = drop 1 (packet_queue s) \<and>
           map Inr (tx_log s') = map Inr (tx_log s) @ map (kiss_frame s) (take 1 (packet_queue s)) \<and>
           online s' \<and> serial s' = serial s \<and>
           src_call s' = src_call s \<and> src_ssid s' = src_ssid s \<and>
           dst_call s' = dst_call s \<and> dst_ssid s' = dst_ssid s"
proof -
  let ?r1 = "r\<lparr>last_read_ms := now_ms e1, in_frame := True, command := CMD_UNKNOWN,
              data_buffer := []\<rparr>"
  let ?r2 = "?r1\<lparr>last_read_ms := now_ms e2, command := c AND 0x0F\<rparr>"
  let ?r3 = "?r2\<lparr>last_read_ms := now_ms e3\<rparr>"
  let ?r4 = "?r3\<lparr>last_read_ms := now_ms e4, in_frame := True, command := CMD_UNKNOWN,
              data_buffer := []\<rparr>"
  from process_queue_effect [OF s(2,3) w] obtain s' where
    q: "process_queue e3 s = (None, s')"
    and s': "packet_queue s' = drop 1 (packet_queue s)"
      "map Inr (tx_log s') = map Inr (tx_log s) @ map (kiss_frame s) (take 1 (packet_queue s))"
      "online s'" "serial s' = serial s"
      "src_call s' = src_call s" "src_ssid s' = src_ssid s"
      "dst_call s' = dst_call s" "dst_ssid s' = dst_ssid s"
    by blast
  have 1: "read_byte e1 FEND (r, s) = (None, ?r1, s)"
    using r by (rule read_byte_frame_start)
  have 2: "read_byte e2 c (?r1, s) = (None, ?r2, s)"
    by (rule read_byte_command) (use ready_not_FEND [OF c] in simp_all)
  have 3: "read_byte e3 v (?r2, s) = (None, ?r3, s')"
    using read_byte_ready [of ?r2 v e3 s] c v q by simp
  have 4: "read_byte e4 FEND (?r3, s') = (None, ?r4, s')"
    using read_byte_frame_start [of ?r3 e4 s'] c by simp
  have "readLoop ((e1, Some FEND) # (e2, Some c) # (e3, Some v) # (e4, Some FEND) # rest) (r, s) =
      readLoop rest (?r4, s')"
    using s(1) s'(4) 1 2 3 4 by simp
  moreover have "\<not> (in_frame ?r4 \<and> command ?r4 = CMD_DATA)" by simp
  ultimately show ?thesis
    using s' by blast
qed

lemma readLoop_ready_frames:
  assumes "serial s = Some True" and "online s" and "ax25_header s = Inr h"
    and "\<not> (in_frame r \<and> command r = CMD_DATA)"
    and "\<forall>(c, v) \<in> set cvs. c AND 0x0F = CMD_READY \<and> v \<noteq> FEND"
    and "map snd evs = map Some (concat (map (\<lambda>(c, v). [FEND, c, v, FEND]) cvs))"
    and "\<forall>(e, x) \<in> set evs. wr e = (\<lambda>frame. int (length frame))"
  shows "\<exists>r' s'. readLoop evs (r, s) = (Running, r', s') \<and>
           packet_queue s' = drop (length cvs) (packet_queue s) \<and>
           map Inr (tx_log s') =
             map Inr (tx_log s) @ map (kiss_frame s) (take (length cvs) (packet_queue s))"
  using assms
proof (induction cvs arbitrary: r s evs)
  case Nil
  then show ?case by simp
next
  case (Cons cv cvs)
  obtain c v where cv: "cv = (c, v)" by (cases cv)
  from Cons.prems(5) have c: "c AND 0x0F = CMD_READY" and v: "v \<noteq> FEND"
    and rest: "\<forall>(c, v) \<in> set cvs. c AND 0x0F = CMD_READY \<and> v \<noteq> FEND"
    by (simp_all add: cv)
  from Cons.prems(6) obtain e1 e2 e3 e4 evs' where
    evs: "evs = (e1, Some FEND) # (e2, Some c) # (e3, Some v) # (e4, Some FEND) # evs'"
    and evs': "map snd evs' = map Some (concat (map (\<lambda>(c, v). [FEND, c, v, FEND]) cvs))"
    by (auto simp: cv map_eq_Cons_conv)
  from Cons.prems(7) have w3: "wr e3 = (\<lambda>frame. int (length frame))"
    and w': "\<forall>(e, x) \<in> set evs'. wr e = (\<lambda>frame. int (length frame))"
    by (simp_all add: evs)
  from readLoop_ready_frame [OF Cons.prems(1,2,3,4) c v w3, of e1 e2 e4 evs']
  obtain r1 s1 where
    run: "readLoop evs (r, s) = readLoop evs' (r1, s1)"
    and r1: "\<not> (in_frame r1 \<and> command r1 = CMD_DATA)"
    and q1: "packet_queue s1 = drop 1 (packet_queue s)"
    and t1: "map Inr (tx_log s1) =
        map Inr (tx_log s) @ map (kiss_frame s) (take 1 (packet_queue s))"
    and s1: "online s1" "serial s1 = serial s"
    and a1: "src_call s1 = src_call s" "src_ssid s1 = src_ssid s"
      "dst_call s1 = dst_call s" "dst_ssid s1 = dst_ssid s"
    unfolding evs by blast
  have h1: "ax25_header s1 = Inr h"
    using ax25_header_cong [OF a1] Cons.prems(3) by simp
  have k1: "kiss_frame s1 = kiss_frame s"
    by (rule ext) (rule kiss_frame_cong [OF a1])
  from Cons.IH [OF _ s1(1) h1 r1 rest evs' w'] s1(2) Cons.prems(1)
  obtain r' s' where
    run': "readLoop evs' (r1, s1) = (Running, r', s')"
    and q': "packet_queue s' = drop (length cvs) (packet_queue s1)"
    and t': "map Inr (tx_log s') =
        map Inr (tx_log s1) @ map (kiss_frame s1) (take (length cvs) (packet_queue s1))"
    by auto
  have "take 1 (packet_queue s) @ take (length cvs) (drop 1 (packet_queue s)) =
      take (length (cv # cvs)) (packet_queue s)"
    using take_add [of 1 "length cvs" "packet_queue s"] by simp
  then have "map Inr (tx_log s') =
      map Inr (tx_log s) @ map (kiss_frame s) (take (length (cv # cvs)) (packet_queue s))"
    by (simp only: t' t1 k1 q1 append_assoc map_append [symmetric])
  moreover have "packet_queue s' = drop (length (cv # cvs)) (packet_queue s)"
    by (simp add: q' q1)
  ultimately show ?case
    using run run' by simp
qed

text \<open>
  Claim C4, as amended. On a running interface that is online with its port open and
  a transport that writes completely, a reader that is not inside a data frame is fed
  any number of ready frames, each a delimiter, a command byte whose low nibble is
  \<open>0x0F\<close>, one value byte that is not a delimiter, and a delimiter. Then each frame
  drains one payload while there is one: the queue loses as many payloads from its
  front as there are frames, and their data frames are written in the order in which
  the payloads were queued.
\<close>

theorem ready_frames_drain_fifo:
  assumes "reachable (r, s)" and "online s" and "serial s = Some True"
    and "\<not> (in_frame r \<and> command r = CMD_DATA)"
    and "\<forall>(c, v) \<in> set cvs. c AND 0x0F = CMD_READY \<and> v \<noteq> FEND"
    and "map snd evs = map Some (concat (map (\<lambda>(c, v). [FEND, c, v, FEND]) cvs))"
    and "\<forall>(e, x) \<in> set evs. wr e = (\<lambda>frame. int (length frame))"
  shows "\<exists>r' s'. readLoop evs (r, s) = (Running, r', s') \<and>
           packet_queue s' = drop (length cvs) (packet_queue s) \<and>
           map Inr (tx_log s') =
             map Inr (tx_log s) @ map (kiss_frame s) (take (length cvs) (packet_queue s))"
proof -
  from assms(1) have "iface_inv s"
    using reachable_inv by fastforce
  then obtain h where "ax25_header s = Inr h"
    by (auto simp: iface_inv_def)
  with assms(3,2) show ?thesis
    using assms(4-7) by (rule readLoop_ready_frames)
qed

theorem ready_frames_drain_fifo_witness:
  "reachable (reader_start full_write, queued_iface) \<and>
   packet_queue queued_iface = [[0x02], [0x03], [0x04]] \<and>
   (\<exists>r' s'. readLoop (feed full_write [0xC0, 0x0F, 0x01, 0xC0, 0xC0, 0x1F, 0x00, 0xC0])
              (reader_start full_write, queued_iface) = (Running, r', s') \<and>
      packet_queue s' = [[0x04]] \<and>
      tx_log s' = tx_log queued_iface @
        [[0xC0, 0x00, 0x82, 0xA0, 0xB4, 0xA4, 0x9C, 0xA6, 0x60, 0x82, 0x84, 0x86, 0x20, 0x20,
          0x20, 0x6B, 0x03, 0xF0, 0x02, 0xC0],
         [0xC0, 0x00, 0x82, 0xA0, 0xB4, 0xA4, 0x9C, 0xA6, 0x60, 0x82, 0x84, 0x86, 0x20, 0x20,
          0x20, 0x6B, 0x03, 0xF0, 0x03, 0xC0]])"
proof -
  let ?evs = "feed full_write [0xC0, 0x0F, 0x01, 0xC0, 0xC0, 0x1F, 0x00, 0xC0]"
  let ?cvs = "[(0x0F, 0x01), (0x1F, 0x00)] :: (byte \<times> byte) list"
  have r: "\<not> (in_frame (reader_start full_write) \<and> command (reader_start full_write) = CMD_DATA)"
    by (simp add: reader_start_def)
  have cvs: "\<forall>(c, v) \<in> set ?cvs. c AND 0x0F = CMD_READY \<and> v \<noteq> FEND"
    by simp
  have evs: "map snd ?evs = map Some (concat (map (\<lambda>(c, v). [FEND, c, v, FEND]) ?cvs))"
    by (simp add: feed_def)
  have w: "\<forall>(e, x) \<in> set ?evs. wr e = (\<lambda>frame. int (length frame))"
    by (simp add: feed_def full_write_def)
  have inj: "map Inr xs = map Inr ys \<longleftrightarrow> xs = ys" for xs ys :: "byte list list"
    by (simp add: inj_map_eq_map)
  from ready_frames_drain_fifo [OF queued_reachable queued_iface_fields(2,3) r cvs evs w]
  obtain r' s' where
    run: "readLoop ?evs (reader_start full_write, queued_iface) = (Running, r', s')"
    and q: "packet_queue s' = drop (length ?cvs) (packet_queue queued_iface)"
    and t: "map Inr (tx_log s') = map Inr (tx_log queued_iface) @
        map (kiss_frame queued_iface) (take (length ?cvs) (packet_queue queued_iface))"
    by blast
  from q have q': "packet_queue s' = [[0x04]]"
    by (simp add: queued_iface_fields)
  have "(map Inr (tx_log s') :: (error + byte list) list) = map Inr (tx_log queued_iface @
        [[0xC0, 0x00, 0x82, 0xA0, 0xB4, 0xA4, 0x9C, 0xA6, 0x60, 0x82, 0x84, 0x86, 0x20, 0x20,
          0x20, 0x6B, 0x03, 0xF0, 0x02, 0xC0],
         [0xC0, 0x00, 0x82, 0xA0, 0xB4, 0xA4, 0x9C, 0xA6, 0x60, 0x82, 0x84, 0x86, 0x20, 0x20,
          0x20, 0x6B, 0x03, 0xF0, 0x03, 0xC0]])"
    using t by (simp add: queued_iface_fields(1) queued_frame)
  then have t': "tx_log s' = tx_log queued_iface @
        [[0xC0, 0x00, 0x82, 0xA0, 0xB4, 0xA4, 0x9C, 0xA6, 0x60, 0x82, 0x84, 0x86, 0x20, 0x20,
          0x20, 0x6B, 0x03, 0xF0, 0x02, 0xC0],
         [0xC0, 0x00, 0x82, 0xA0, 0xB4, 0xA4, 0x9C, 0xA6, 0x60, 0x82, 0x84, 0x86, 0x20, 0x20,
          0x20, 0x6B, 0x03, 0xF0, 0x03, 0xC0]]"
    by (simp only: inj)
  from queued_reachable queued_iface_fields(1) run q' t' show ?thesis
    by blast
qed

text \<open>
  Claim C4 as stated fails for a ready frame that carries no byte after its command
  byte: the command byte sets the command, the closing delimiter starts the next
  frame, and \<open>process_queue\<close> is never called. The three queued payloads stay queued
  and nothing is written.
\<close>

theorem ready_frame_without_byte_drains_nothing:
  "packet_queue queued_iface = [[0x02], [0x03], [0x04]] \<and>
   readLoop (feed full_write [0xC0, 0x0F, 0xC0]) (reader_start full_write, queued_iface) =
     (Running,
      \<lparr>in_frame = True, escape = False, command = CMD_UNKNOWN, data_buffer = [],
       last_read_ms = 0\<rparr>, queued_iface)"
  by (simp add: queued_iface_fields feed_def reader_start_def full_write_def read_byte_def Let_def)

end
